theory Spec2Isabelle
  imports Complex_Main "HOL-Library.Product_Lexorder" "HOL-Library.Multiset"
begin

section \<open>Tables, missing values and errors\<close>

text \<open>
  A pandas column holds a value or the missing marker (NaN) in every row: a cell is an
  \<open>'a option\<close>, \<open>None\<close> being the missing value. A numeric cell is a float64, modelled
  as the real number it denotes.

  A DataFrame is its list of rows together with the names of the columns it really has.
  A row is a record with one field per column whose values the program reads; the field
  of a column that is not in \<open>columns\<close> is never read.
\<close>

text \<open>The exceptions that end a computation; \<open>OtherError\<close> is one raised inside the
  table library.\<close>

datatype py_error = IndexError | KeyError | ValueError | OtherError

record 'r dataframe =
  rows :: "'r list"
  columns :: "string list"

text \<open>\<open>df[name]\<close> where the program has checked \<open>name in df.columns\<close> first.\<close>

definition column :: "'r dataframe \<Rightarrow> string \<Rightarrow> ('r \<Rightarrow> 'a) \<Rightarrow> 'a list option" where
  "column df name field =
     (if name \<in> set (columns df) then Some (map field (rows df)) else None)"

text \<open>\<open>df.empty\<close>: one of the two axes has length zero.\<close>

definition empty_df :: "'r dataframe \<Rightarrow> bool" where
  "empty_df df = (rows df = [] \<or> columns df = [])"

fun dropna :: "'a option list \<Rightarrow> 'a list" where
  "dropna [] = []"
| "dropna (None # col) = dropna col"
| "dropna (Some v # col) = v # dropna col"

text \<open>\<open>Series.unique()\<close>: the values in the order of their first appearance.\<close>

definition unique_values :: "'a list \<Rightarrow> 'a list" where
  "unique_values xs = rev (remdups (rev xs))"

text \<open>\<open>Series.nunique()\<close>: the number of distinct values that are not missing.\<close>

definition nunique :: "'a option list \<Rightarrow> nat" where
  "nunique col = length (remdups (dropna col))"

section \<open>Float64 arithmetic\<close>

text \<open>
  The statistics are computed in float64. An operation on floats gives the exact result
  rounded to the nearest float64, a tie going to the even significand. \<open>float64 x\<close> is
  that rounding of a real \<open>x\<close>: to 53 significant bits. Overflow to an infinity and the
  subnormal range are left out; they are far from headings, speeds and yards.
\<close>

definition round_half_even :: "real \<Rightarrow> int" where
  "round_half_even t =
     (let f = \<lfloor>t\<rfloor> in
      if t - of_int f < 1/2 then f
      else if t - of_int f > 1/2 then f + 1
      else if even f then f else f + 1)"

definition float64 :: "real \<Rightarrow> real" where
  "float64 x =
     (if x = 0 then 0
      else (let u = 2 powr (of_int (\<lfloor>log 2 \<bar>x\<bar>\<rfloor> - 52))
            in of_int (round_half_even (x / u)) * u))"

text \<open>
  \<open>Series.sum()\<close> adds the values in float64, in an order that belongs to numpy and
  pandas and not to this program. It is a parameter \<open>fsum\<close> of the model. \<open>left_sum\<close>
  is the sum from left to right; a series of three equal values has that sum in any
  order of the additions.
\<close>

definition left_sum :: "real list \<Rightarrow> real" where
  "left_sum vs = fold (\<lambda>v acc. float64 (acc + v)) vs 0"

text \<open>
  \<open>Series.max()\<close>, \<open>Series.min()\<close> and \<open>Series.mean()\<close>. The program calls them
  on a series it has found non-empty; on the empty series pandas gives NaN, and the
  model leaves the extrema unspecified there. The mean is the sum divided by the count.
\<close>

fun series_max :: "real list \<Rightarrow> real" where
  "series_max (v # vs) = fold max vs v"

fun series_min :: "real list \<Rightarrow> real" where
  "series_min (v # vs) = fold min vs v"

definition series_mean :: "(real list \<Rightarrow> real) \<Rightarrow> real list \<Rightarrow> real" where
  "series_mean fsum vs = float64 (fsum vs / real (length vs))"

section \<open>Tracking statistics\<close>

text \<open>
  One tracking frame. \<open>fr_ts\<close> is the timestamp in seconds (timestamps and their
  difference are kept exact), the other fields are the columns \<open>x\<close>, \<open>y\<close>, \<open>s\<close>,
  \<open>a\<close>, \<open>dis\<close>, \<open>dir\<close>, \<open>play_id\<close> and \<open>playId\<close>.
\<close>

record frame =
  fr_ts :: "real option"
  fr_x :: "real option"
  fr_y :: "real option"
  fr_s :: "real option"
  fr_a :: "real option"
  fr_dis :: "real option"
  fr_dir :: "real option"
  fr_play_id :: "int option"
  fr_playId :: "int option"

type_synonym tracking_df = "frame dataframe"

text \<open>The statistics dictionary: a float or an integer under each key that is set.\<close>

datatype stat_value = FloatV real | IntV int

type_synonym stats = "string \<rightharpoonup> stat_value"

text \<open>
  The blocks of \<open>calculate_tracking_stats\<close>, in the order of the source. The literal
  \<open>2.045\<close> is the float64 nearest to it.
\<close>

definition speed_stats :: "(real list \<Rightarrow> real) \<Rightarrow> tracking_df \<Rightarrow> stats \<Rightarrow> stats" where
  "speed_stats fsum df st =
     (case column df ''s'' fr_s of
        None \<Rightarrow> st
      | Some col \<Rightarrow>
          (let speeds = dropna col in
           if length speeds > 0
           then st(''max_speed_mph'' \<mapsto> FloatV (float64 (series_max speeds * float64 2.045)),
                   ''avg_speed_mph'' \<mapsto>
                      FloatV (float64 (series_mean fsum speeds * float64 2.045)),
                   ''min_speed_mph'' \<mapsto> FloatV (float64 (series_min speeds * float64 2.045)))
           else st))"

definition acceleration_stats ::
  "(real list \<Rightarrow> real) \<Rightarrow> tracking_df \<Rightarrow> stats \<Rightarrow> stats" where
  "acceleration_stats fsum df st =
     (case column df ''a'' fr_a of
        None \<Rightarrow> st
      | Some col \<Rightarrow>
          (let accels = dropna col in
           if length accels > 0
           then st(''max_acceleration'' \<mapsto> FloatV (series_max accels),
                   ''avg_acceleration'' \<mapsto> FloatV (series_mean fsum accels))
           else st))"

definition distance_stats :: "(real list \<Rightarrow> real) \<Rightarrow> tracking_df \<Rightarrow> stats \<Rightarrow> stats" where
  "distance_stats fsum df st =
     (case column df ''dis'' fr_dis of
        None \<Rightarrow> st
      | Some col \<Rightarrow>
          (let distances = dropna col in
           if length distances > 0
           then st(''total_distance'' \<mapsto> FloatV (fsum distances),
                   ''avg_distance_per_frame'' \<mapsto> FloatV (series_mean fsum distances))
           else st))"

definition frame_stats :: "tracking_df \<Rightarrow> stats \<Rightarrow> stats" where
  "frame_stats df st = st(''total_frames'' \<mapsto> IntV (int (length (rows df))))"

definition time_stats :: "tracking_df \<Rightarrow> stats \<Rightarrow> stats" where
  "time_stats df st =
     (case column df ''ts'' fr_ts of
        None \<Rightarrow> st
      | Some col \<Rightarrow>
          (let ts = dropna col in
           if length ts > 1
           then st(''total_time_seconds'' \<mapsto> FloatV (series_max ts - series_min ts))
           else st))"

definition play_stats :: "tracking_df \<Rightarrow> stats \<Rightarrow> stats" where
  "play_stats df st =
     (case column df ''play_id'' fr_play_id of
        Some col \<Rightarrow> st(''play_count'' \<mapsto> IntV (int (nunique col)))
      | None \<Rightarrow>
          (case column df ''playId'' fr_playId of
             Some col \<Rightarrow> st(''play_count'' \<mapsto> IntV (int (nunique col)))
           | None \<Rightarrow> st))"

text \<open>
  \<open>dirs.diff()\<close>: the first entry has no predecessor and is missing, every other entry
  is the value minus the one before it, in float64.
\<close>

fun diff_from :: "real \<Rightarrow> real list \<Rightarrow> real option list" where
  "diff_from p [] = []"
| "diff_from p (v # vs) = Some (float64 (v - p)) # diff_from v vs"

definition series_diff :: "real list \<Rightarrow> real option list" where
  "series_diff vs = (case vs of [] \<Rightarrow> [] | v # vs' \<Rightarrow> None # diff_from v vs')"

definition series_abs :: "real option list \<Rightarrow> real option list" where
  "series_abs col = map (map_option abs) col"

text \<open>\<open>lambda x: min(x, 360 - x) if pd.notna(x) else 0\<close>\<close>

definition wraparound :: "real option \<Rightarrow> real" where
  "wraparound x = (case x of Some d \<Rightarrow> min d (float64 (360 - d)) | None \<Rightarrow> 0)"

definition direction_stats :: "tracking_df \<Rightarrow> stats \<Rightarrow> stats" where
  "direction_stats df st =
     (case column df ''dir'' fr_dir of
        None \<Rightarrow> st
      | Some col \<Rightarrow>
          (let dirs = dropna col in
           if length dirs > 1
           then (let dir_changes = map wraparound (series_abs (series_diff dirs));
                     significant_changes = length (filter (\<lambda>c. c > 45) dir_changes)
                 in st(''direction_changes'' \<mapsto> IntV (int significant_changes)))
           else st))"

definition calculate_tracking_stats :: "(real list \<Rightarrow> real) \<Rightarrow> tracking_df \<Rightarrow> stats" where
  "calculate_tracking_stats fsum df =
     (if empty_df df then Map.empty
      else direction_stats df (play_stats df (time_stats df (frame_stats df
             (distance_stats fsum df (acceleration_stats fsum df
               (speed_stats fsum df Map.empty)))))))"


text \<open>The non-missing samples of a column, none when the table lacks the column.\<close>

definition samples :: "'r dataframe \<Rightarrow> string \<Rightarrow> ('r \<Rightarrow> 'a option) \<Rightarrow> 'a list" where
  "samples df name field =
     (case column df name field of None \<Rightarrow> [] | Some col \<Rightarrow> dropna col)"

definition headings :: "tracking_df \<Rightarrow> real list" where
  "headings df = samples df ''dir'' fr_dir"

text \<open>A frame with every value missing, and tables of headings and of speeds only, to
  write examples with.\<close>

definition no_data :: frame where
  "no_data = \<lparr>fr_ts = None, fr_x = None, fr_y = None, fr_s = None, fr_a = None,
              fr_dis = None, fr_dir = None, fr_play_id = None, fr_playId = None\<rparr>"

definition heading_frames :: "real option list \<Rightarrow> tracking_df" where
  "heading_frames ds =
     \<lparr>rows = map (\<lambda>d. no_data\<lparr>fr_dir := d\<rparr>) ds, columns = [''dir'']\<rparr>"

definition speed_frames :: "real option list \<Rightarrow> tracking_df" where
  "speed_frames vs =
     \<lparr>rows = map (\<lambda>v. no_data\<lparr>fr_s := v\<rparr>) vs, columns = [''s'']\<rparr>"

subsection \<open>The specification's wording of the direction-change count\<close>

text \<open>
  The circular distance of two headings, by the specification's formula
  \<open>min(|d1 - d2|, 360 - |d1 - d2|)\<close>, evaluated in float64 as everything the program
  computes.
\<close>

definition circular_dist :: "real \<Rightarrow> real \<Rightarrow> real" where
  "circular_dist d1 d2 = min \<bar>float64 (d1 - d2)\<bar> (float64 (360 - \<bar>float64 (d1 - d2)\<bar>))"

text \<open>The count over the successive pairs of a list of headings.\<close>

definition spec_direction_changes :: "real list \<Rightarrow> nat" where
  "spec_direction_changes ds =
     length (filter (\<lambda>(d1, d2). circular_dist d1 d2 > 45) (zip ds (tl ds)))"

text \<open>
  The count over the pairs of consecutive frames: a pair counts when both frames have a
  heading and the circular distance of the two is above 45 degrees.
\<close>

fun consecutive_frame_changes :: "real option list \<Rightarrow> nat" where
  "consecutive_frame_changes (Some d1 # Some d2 # col) =
     (if circular_dist d1 d2 > 45 then 1 else 0) + consecutive_frame_changes (Some d2 # col)"
| "consecutive_frame_changes (c # col) = consecutive_frame_changes col"
| "consecutive_frame_changes [] = 0"


definition exact_turns :: "real list \<Rightarrow> bool" where
  "exact_turns ds =
     list_all (\<lambda>(d1, d2). \<bar>d2 - d1\<bar> \<le> 360 \<and> float64 (d2 - d1) = d2 - d1 \<and>
                           float64 (360 - \<bar>d2 - d1\<bar>) = 360 - \<bar>d2 - d1\<bar>)
       (zip ds (tl ds))"

section \<open>Heat-map zone analysis\<close>

text \<open>
  The zone analysis under the heat map. \<open>display_tracking\<close> is the table of the frames
  on display. The three metrics are shown as \<open>count / total * 100\<close> with one decimal; the
  model keeps the number before it is formatted. Dividing by a total of zero gives no
  finite number (numpy's nan or inf), which is \<open>None\<close> here.
\<close>

definition percent :: "nat \<Rightarrow> nat \<Rightarrow> real option" where
  "percent n total_n = (if total_n = 0 then None else Some (real n / real total_n * 100))"

record zone_analysis =
  left_side :: nat
  right_side :: nat
  total_x :: nat
  deep :: nat
  middle :: nat
  left_side_metric :: "real option"
  end_zone_area_metric :: "real option"
  middle_of_field_metric :: "real option"

definition heat_map_zones :: "tracking_df \<Rightarrow> zone_analysis option" where
  "heat_map_zones display_tracking =
     (if ''x'' \<in> set (columns display_tracking) \<and> ''y'' \<in> set (columns display_tracking)
      then
        (let x_coords = dropna (map fr_x (rows display_tracking));
             y_coords = dropna (map fr_y (rows display_tracking));
             left_n = length (filter (\<lambda>v. v < 60) x_coords);
             right_n = length (filter (\<lambda>v. v \<ge> 60) x_coords);
             total_n = length x_coords;
             deep_n = length (filter (\<lambda>v. v < 30 \<or> v > 90) x_coords);
             middle_n = length (filter (\<lambda>v. v > 20 \<and> v < 33.3) y_coords)
         in Some \<lparr>left_side = left_n, right_side = right_n, total_x = total_n,
                  deep = deep_n, middle = middle_n,
                  left_side_metric = percent left_n total_n,
                  end_zone_area_metric = percent deep_n total_n,
                  middle_of_field_metric = percent middle_n total_n\<rparr>)
      else None)"

section \<open>The rankings table\<close>

record prospect =
  player_display_name :: string
  position :: string
  player_category :: "string option"
  draft_season :: "real option"
  draft_round :: "real option"
  draft_overall_selection :: "real option"
  RAS :: "real option"
  athletic_potential_rank :: "real option"
  college_production_rank :: "real option"
  nfl_production_rank :: "real option"
  composite_rank :: "real option"

type_synonym rankings_df = "prospect dataframe"

definition CATEGORY_ORDER :: "string list" where
  "CATEGORY_ORDER = [''Elite'', ''Producer'', ''Prospect'', ''Riser'', ''Risk'', ''Developmental'']"

text \<open>
  \<open>DataFrame.sort_values\<close> on one numeric column: the rows by value, ascending or
  descending, those with a missing value last. The order of rows with equal keys is the
  sorting algorithm's (quicksort by default) and is left open: every rearrangement of the
  rows that is in key order is a possible result.
\<close>

definition nan_last_key :: "bool \<Rightarrow> real option \<Rightarrow> nat \<times> real" where
  "nan_last_key ascending v =
     (case v of None \<Rightarrow> (1, 0) | Some x \<Rightarrow> (0, if ascending then x else - x))"

definition sort_values_result ::
  "('r \<Rightarrow> real option) \<Rightarrow> bool \<Rightarrow> 'r list \<Rightarrow> 'r list \<Rightarrow> bool" where
  "sort_values_result field ascending rs sorted_rows =
     (mset sorted_rows = mset rs \<and>
      sorted (map (\<lambda>r. nan_last_key ascending (field r)) sorted_rows))"

text \<open>The choices of the "Sort By" box and \<open>sort_map\<close>: column, its field, ascending.\<close>

datatype sort_choice = Composite_Rank | RAS_Choice | Athletic_Rank | College_Rank | NFL_Rank

fun sort_map :: "sort_choice \<Rightarrow> string \<times> (prospect \<Rightarrow> real option) \<times> bool" where
  "sort_map Composite_Rank = (''composite_rank'', composite_rank, True)"
| "sort_map RAS_Choice = (''RAS'', RAS, False)"
| "sort_map Athletic_Rank = (''athletic_potential_rank'', athletic_potential_rank, True)"
| "sort_map College_Rank = (''college_production_rank'', college_production_rank, True)"
| "sort_map NFL_Rank = (''nfl_production_rank'', nfl_production_rank, True)"

text \<open>\<open>CATEGORY_ORDER.index(x) if x in CATEGORY_ORDER else 99\<close>\<close>

fun index_of :: "'a \<Rightarrow> 'a list \<Rightarrow> nat" where
  "index_of x [] = 0"
| "index_of x (y # ys) = (if x = y then 0 else Suc (index_of x ys))"

definition category_order_index :: "string option \<Rightarrow> nat" where
  "category_order_index x =
     (case x of
        Some c \<Rightarrow> if c \<in> set CATEGORY_ORDER then index_of c CATEGORY_ORDER else 99
      | None \<Rightarrow> 99)"

text \<open>
  The columns \<open>create_great_table\<close> shows. It selects those of them the table has, and
  then names every one of them to the table library (in the spanners, the alignments and
  the widths), which fails on a name it does not find: the function returns a table only
  when all fourteen are there. The cells of \<open>headshot_url\<close>, \<open>draft_club_name\<close> and
  \<open>team_name\<close> feed display strings only; the model has their names and not their values.
\<close>

definition display_cols :: "string list" where
  "display_cols = [''headshot_url'', ''player_display_name'', ''draft_season'', ''draft_round'',
     ''draft_overall_selection'', ''position'', ''draft_club_name'', ''team_name'',
     ''RAS'', ''athletic_potential_rank'', ''college_production_rank'',
     ''nfl_production_rank'', ''composite_rank'', ''player_category'']"

text \<open>
  The table library shows the rows in groups by \<open>Category\<close>: the groups in the order in
  which their names first appear, the rows of a group in the order they have. Where it
  puts rows whose category is missing is not fixed by this program; the model keeps them
  as one more group.
\<close>

definition group_rows :: "prospect list \<Rightarrow> (string option \<times> prospect list) list" where
  "group_rows rs =
     map (\<lambda>g. (g, filter (\<lambda>r. player_category r = g) rs))
       (unique_values (map player_category rs))"

text \<open>
  The table \<open>create_great_table\<close> builds, as its groups of rows: the rows are sorted by
  \<open>Category_Order\<close>, then by \<open>Overall\<close> (the composite rank), both ascending and rows
  with equal keys in the order they came in, and then grouped. The display strings of
  the cells do not bear on the order and are not modelled.
\<close>

definition create_great_table ::
  "rankings_df \<Rightarrow> py_error + (string option \<times> prospect list) list" where
  "create_great_table df =
     (if ''player_category'' \<in> set (columns df) \<and> ''composite_rank'' \<in> set (columns df)
      then (if set display_cols \<subseteq> set (columns df)
            then Inr (group_rows
                   (sort_key (\<lambda>r. (category_order_index (player_category r),
                                    nan_last_key True (composite_rank r))) (rows df)))
            else Inl OtherError)
      else Inl KeyError)"

text \<open>
  The rankings tab. \<open>sorted_rows\<close> are the rows of the filtered table as
  \<open>sort_values\<close> on the chosen column returned them (\<open>sort_values_result\<close>). The tab
  shows the table of \<open>create_great_table\<close>, and when that raises, the plain table of the
  sorted rows.
\<close>

datatype shown_table =
  Great_Table "(string option \<times> prospect list) list"
| Fallback_Table "prospect list"

definition rankings_tab ::
  "sort_choice \<Rightarrow> rankings_df \<Rightarrow> prospect list \<Rightarrow> py_error + shown_table" where
  "rankings_tab sort_by filtered_df sorted_rows =
     (case sort_map sort_by of
        (sort_col, field, ascending) \<Rightarrow>
          if sort_col \<in> set (columns filtered_df)
          then (case create_great_table (filtered_df\<lparr>rows := sorted_rows\<rparr>) of
                  Inr great_table \<Rightarrow> Inr (Great_Table great_table)
                | Inl e \<Rightarrow> Inr (Fallback_Table sorted_rows))
          else Inl KeyError)"

text \<open>A prospect with a name, a category, a RAS and a composite rank, for examples, and
  the columns of a full rankings table.\<close>

definition example_prospect :: "string \<Rightarrow> string \<Rightarrow> real option \<Rightarrow> real option \<Rightarrow> prospect" where
  "example_prospect name category ras overall =
     \<lparr>player_display_name = name, position = ''CB'', player_category = Some category,
      draft_season = Some 2024, draft_round = None, draft_overall_selection = None,
      RAS = ras, athletic_potential_rank = None, college_production_rank = None,
      nfl_production_rank = None, composite_rank = overall\<rparr>"

definition rankings_columns :: "string list" where
  "rankings_columns = [''headshot_url'', ''player_display_name'', ''draft_season'',
     ''draft_round'', ''draft_overall_selection'', ''position'', ''draft_club_name'',
     ''team_name'', ''RAS'', ''athletic_potential_rank'', ''college_production_rank'',
     ''nfl_production_rank'', ''composite_rank'', ''player_category'']"

section \<open>The sidebar filters\<close>

definition available_categories :: "rankings_df \<Rightarrow> string option list" where
  "available_categories rankings_df =
     (let all_categories_in_data = unique_values (map player_category (rows rankings_df));
          available = filter (\<lambda>c. c \<in> set all_categories_in_data) (map Some CATEGORY_ORDER)
      in if available = [] then all_categories_in_data else available)"

text \<open>
  What the user sets in the sidebar: the position, the selected categories, the two ends
  of the draft-year slider and of the RAS slider.
\<close>

record filter_spec =
  position_filter :: string
  selected_categories :: "string option list"
  year_range :: "int \<times> int"
  ras_range :: "real \<times> real"

text \<open>Comparisons of a cell with a bound: false on a missing value.\<close>

definition cell_ge :: "real option \<Rightarrow> real \<Rightarrow> bool" where
  "cell_ge c b = (case c of None \<Rightarrow> False | Some v \<Rightarrow> v \<ge> b)"

definition cell_le :: "real option \<Rightarrow> real \<Rightarrow> bool" where
  "cell_le c b = (case c of None \<Rightarrow> False | Some v \<Rightarrow> v \<le> b)"

definition isna :: "'a option \<Rightarrow> bool" where
  "isna c = (c = None)"

definition position_step :: "string \<Rightarrow> prospect list \<Rightarrow> prospect list" where
  "position_step pos rs = (if pos \<noteq> ''All'' then filter (\<lambda>r. position r = pos) rs else rs)"

definition category_step :: "string option list \<Rightarrow> prospect list \<Rightarrow> prospect list" where
  "category_step selected rs =
     (if selected \<noteq> [] then filter (\<lambda>r. player_category r \<in> set selected) rs else rs)"

text \<open>The draft-year slider is shown, and its range applied, when the rows at hand have
  more than one draft year.\<close>

definition year_filter_active :: "string list \<Rightarrow> prospect list \<Rightarrow> bool" where
  "year_filter_active cols rs =
     (''draft_season'' \<in> set cols \<and>
      length (sort (unique_values (dropna (map draft_season rs)))) > 1)"

definition year_step :: "string list \<Rightarrow> int \<times> int \<Rightarrow> prospect list \<Rightarrow> prospect list" where
  "year_step cols yr rs =
     (if year_filter_active cols rs
      then filter (\<lambda>r. cell_ge (draft_season r) (real_of_int (fst yr)) \<and>
                       cell_le (draft_season r) (real_of_int (snd yr))) rs
      else rs)"

definition ras_step :: "string list \<Rightarrow> real \<times> real \<Rightarrow> prospect list \<Rightarrow> prospect list" where
  "ras_step cols rr rs =
     (if ''RAS'' \<in> set cols
      then filter (\<lambda>r. cell_ge (RAS r) (fst rr) \<and> cell_le (RAS r) (snd rr) \<or> isna (RAS r)) rs
      else rs)"

text \<open>
  The filters in the order of the script. The position column is read when a position is
  chosen, the category column always; a table without them ends the script with a
  KeyError.
\<close>

definition filter_pipeline :: "rankings_df \<Rightarrow> filter_spec \<Rightarrow> py_error + prospect list" where
  "filter_pipeline rankings_df spec =
     (if position_filter spec \<noteq> ''All'' \<and> ''position'' \<notin> set (columns rankings_df)
      then Inl KeyError
      else if ''player_category'' \<notin> set (columns rankings_df) then Inl KeyError
      else Inr (ras_step (columns rankings_df) (ras_range spec)
             (year_step (columns rankings_df) (year_range spec)
               (category_step (selected_categories spec)
                 (position_step (position_filter spec) (rows rankings_df))))))"

section \<open>Formatting the draft pick\<close>

text \<open>\<open>int(x)\<close> of a float truncates toward zero; \<open>str\<close> of an integer is its decimal
  numeral.\<close>

definition py_int :: "real \<Rightarrow> int" where
  "py_int v = (if v \<ge> 0 then \<lfloor>v\<rfloor> else \<lceil>v\<rceil>)"

fun digits :: "nat \<Rightarrow> string" where
  "digits n =
     (if n < 10 then [''0123456789'' ! n]
      else digits (n div 10) @ [''0123456789'' ! (n mod 10)])"

definition str_int :: "int \<Rightarrow> string" where
  "str_int i = (if i < 0 then CHR ''-'' # digits (nat (- i)) else digits (nat i))"

text \<open>
  \<open>row\<close> is one row of the rankings table, \<open>cols\<close> the labels it has. \<open>row.get\<close> of
  an absent label is \<open>None\<close>, which \<open>pd.isna\<close> takes for missing; \<open>row[label]\<close>
  of an absent label raises KeyError, and \<open>int\<close> of a missing value raises ValueError.
\<close>

definition format_draft_pick :: "string list \<Rightarrow> prospect \<Rightarrow> py_error + string" where
  "format_draft_pick cols row =
     (case (if ''draft_round'' \<in> set cols then draft_round row else None) of
        None \<Rightarrow> Inr ''UDFA''
      | Some round_v \<Rightarrow>
          if ''draft_overall_selection'' \<notin> set cols then Inl KeyError
          else (case draft_overall_selection row of
                  None \<Rightarrow> Inl ValueError
                | Some pick_v \<Rightarrow>
                    Inr (''R'' @ str_int (py_int round_v) @ '' #'' @ str_int (py_int pick_v))))"

section \<open>Highlighting the comparison table\<close>

text \<open>
  A row of the comparison table is the metric name followed by one cell for each player;
  a cell is a text or missing. Strings are byte strings, the em-dash being its three
  UTF-8 bytes. \<open>str.strip()\<close> is modelled on the ASCII white space.

  Python's \<open>float(text)\<close> is a parameter \<open>pyfloat\<close> of the model: the number the
  text denotes, or \<open>None\<close> where \<open>float\<close> raises ValueError. Texts that
  \<open>float\<close> reads as an infinity or as nan have no real number and are not covered.
\<close>

definition em_dash :: string where
  "em_dash = [CHR 0xE2, CHR 0x80, CHR 0x94]"

definition whitespace :: "char \<Rightarrow> bool" where
  "whitespace c = (c \<in> set [CHR '' '', CHR 0x09, CHR 0x0A, CHR 0x0B, CHR 0x0C, CHR 0x0D,
                              CHR 0x1C, CHR 0x1D, CHR 0x1E, CHR 0x1F])"

definition strip :: "string \<Rightarrow> string" where
  "strip s = rev (dropWhile whitespace (rev (dropWhile whitespace s)))"

definition clean_val :: "string \<Rightarrow> string" where
  "clean_val v = strip (filter (\<lambda>c. c \<noteq> CHR ''#'') (filter (\<lambda>c. c \<noteq> CHR ''%'') v))"

text \<open>The body of the \<open>try\<close>: the number appended for a cell, \<open>None\<close> when the cell is
  skipped or \<open>float\<close> raises and the \<open>except\<close> passes.\<close>

definition numeric_value :: "(string \<Rightarrow> real option) \<Rightarrow> string option \<Rightarrow> real option" where
  "numeric_value pyfloat val =
     (case val of
        None \<Rightarrow> None
      | Some v \<Rightarrow> if v \<in> set [''N/A'', em_dash, ''''] then None else pyfloat (clean_val v))"

text \<open>The loop over \<open>range(1, len(row))\<close>: the lists \<open>indices\<close> and \<open>values\<close>, kept as
  one list of pairs.\<close>

fun numeric_cells :: "(string \<Rightarrow> real option) \<Rightarrow> nat \<Rightarrow> string option list \<Rightarrow> (nat \<times> real) list" where
  "numeric_cells pyfloat idx [] = []"
| "numeric_cells pyfloat idx (val # cells) =
     (case numeric_value pyfloat val of
        None \<Rightarrow> numeric_cells pyfloat (Suc idx) cells
      | Some f \<Rightarrow> (idx, f) # numeric_cells pyfloat (Suc idx) cells)"

text \<open>\<open>max(values)\<close> and \<open>min(values)\<close> of a Python list, called on two values or more.\<close>

fun py_max :: "real list \<Rightarrow> real" where
  "py_max (v # vs) = fold max vs v"

fun py_min :: "real list \<Rightarrow> real" where
  "py_min (v # vs) = fold min vs v"

definition best_style :: string where
  "best_style = ''background-color: #28a745; color: white; font-weight: bold''"

definition near_best_style :: string where
  "near_best_style = ''background-color: #d4edda; color: #155724''"

text \<open>The style the last loop gives the cell of one value, \<open>None\<close> when it leaves it.\<close>

definition cell_style :: "bool \<Rightarrow> real list \<Rightarrow> real \<Rightarrow> real \<Rightarrow> string option" where
  "cell_style higher_better vals best_val val =
     (if val = best_val then Some best_style
      else if higher_better \<and> best_val \<noteq> py_min vals
        then (if (val - py_min vals) / (best_val - py_min vals) > 0.7
              then Some near_best_style else None)
      else if \<not> higher_better \<and> best_val \<noteq> py_max vals
        then (if (py_max vals - val) / (py_max vals - best_val) > 0.7
              then Some near_best_style else None)
      else None)"

definition highlight_cells ::
  "(string \<Rightarrow> real option) \<Rightarrow> (string \<rightharpoonup> bool) \<Rightarrow> string option list
     \<Rightarrow> py_error + string list" where
  "highlight_cells pyfloat metrics_config row =
     (case row of
        [] \<Rightarrow> Inl IndexError
      | metric # cells \<Rightarrow>
          (let styles = replicate (length row) '''' in
           case (case metric of None \<Rightarrow> None | Some m \<Rightarrow> metrics_config m) of
             None \<Rightarrow> Inr styles
           | Some higher_better \<Rightarrow>
               (let found = numeric_cells pyfloat 1 cells;
                    vals = map snd found
                in if length vals < 2 then Inr styles
                   else
                     (let best_val = (if higher_better then py_max vals else py_min vals)
                      in Inr (fold (\<lambda>(idx, val) styles.
                                      case cell_style higher_better vals best_val val of
                                        None \<Rightarrow> styles
                                      | Some s \<Rightarrow> styles[idx := s])
                                found styles)))))"

text \<open>A cell parses as a number when the loop appends a value for it.\<close>

definition parses_as_number :: "(string \<Rightarrow> real option) \<Rightarrow> string option \<Rightarrow> bool" where
  "parses_as_number pyfloat val = (numeric_value pyfloat val \<noteq> None)"

section \<open>Properties of the float64 rounding\<close>

lemma round_half_even_of_int [simp]: "round_half_even (of_int n) = n"
  by (simp add: round_half_even_def)

lemma round_half_even_floor:
  "\<lfloor>t\<rfloor> \<le> round_half_even t" "round_half_even t \<le> \<lfloor>t\<rfloor> + 1"
  by (auto simp: round_half_even_def Let_def)

lemma round_half_even_mono:
  assumes "t \<le> u"
  shows "round_half_even t \<le> round_half_even u"
proof (cases "\<lfloor>t\<rfloor> = \<lfloor>u\<rfloor>")
  case True
  with assms show ?thesis
    by (auto simp: round_half_even_def Let_def)
next
  case False
  with assms have "\<lfloor>t\<rfloor> + 1 \<le> \<lfloor>u\<rfloor>"
    using floor_mono [of t u] by linarith
  with round_half_even_floor(2) [of t] round_half_even_floor(1) [of u] show ?thesis
    by linarith
qed

lemma round_half_even_minus: "round_half_even (- t) = - round_half_even t"
proof (cases "t \<in> \<int>")
  case True
  then obtain n where "t = of_int n" by (auto elim: Ints_cases)
  then have "- t = of_int (- n)" by simp
  then show ?thesis unfolding \<open>t = of_int n\<close> by (metis round_half_even_of_int)
next
  case False
  then have "t \<noteq> of_int \<lfloor>t\<rfloor>"
    by (metis Ints_of_int)
  then have fl: "\<lfloor>- t\<rfloor> = - \<lfloor>t\<rfloor> - 1"
    by (simp add: floor_minus ceiling_altdef)
  have "of_int \<lfloor>t\<rfloor> < t"
    using \<open>t \<noteq> of_int \<lfloor>t\<rfloor>\<close> of_int_floor_le [of t] by linarith
  show ?thesis
    using fl \<open>of_int \<lfloor>t\<rfloor> < t\<close>
    by (auto simp: round_half_even_def Let_def)
qed

lemma binade_bounds:
  assumes "x \<noteq> 0"
  shows "2 powr of_int \<lfloor>log 2 \<bar>x\<bar>\<rfloor> \<le> \<bar>x\<bar>"
    and "\<bar>x\<bar> < 2 powr (of_int \<lfloor>log 2 \<bar>x\<bar>\<rfloor> + 1)"
  using assms floor_log_eq_powr_iff [of "\<bar>x\<bar>" 2 "\<lfloor>log 2 \<bar>x\<bar>\<rfloor>"] by auto

lemma binade_eqI:
  assumes "2 powr of_int k \<le> \<bar>x\<bar>" and "\<bar>x\<bar> < 2 powr (of_int k + 1)"
  shows "\<lfloor>log 2 \<bar>x\<bar>\<rfloor> = k"
proof -
  have "0 < \<bar>x\<bar>" using assms(1) powr_gt_zero [of 2 "of_int k"] by linarith
  then show ?thesis
    using assms floor_log_eq_powr_iff [of "\<bar>x\<bar>" 2 k] by auto
qed

text \<open>The rounding of a value whose unit in the last place \<open>u\<close> is known.\<close>

lemma float64_ulp:
  assumes u: "u = 2 powr of_int e" and lo: "2 ^ 52 * u \<le> \<bar>x\<bar>" and hi: "\<bar>x\<bar> < 2 ^ 53 * u"
  shows "float64 x = of_int (round_half_even (x / u)) * u"
proof -
  have p52: "2 powr of_int (e + 52) = 2 ^ 52 * u"
    by (simp add: u powr_add)
  have p53: "2 powr (of_int (e + 52) + 1) = 2 ^ 53 * u"
    by (simp add: u powr_add)
  have "\<lfloor>log 2 \<bar>x\<bar>\<rfloor> = e + 52"
    using lo hi by (intro binade_eqI) (simp_all only: p52 p53)
  moreover have "x \<noteq> 0"
    using lo powr_gt_zero [of 2 "of_int e"] u by auto
  ultimately show ?thesis
    by (simp add: float64_def Let_def u)
qed

lemma float64_minus: "float64 (- x) = - float64 x"
  by (simp add: float64_def Let_def round_half_even_minus)

lemma float64_zero [simp]: "float64 0 = 0"
  by (simp add: float64_def)

lemma float64_range:
  assumes "0 < x"
  shows "2 powr of_int \<lfloor>log 2 x\<rfloor> \<le> float64 x"
    and "float64 x \<le> 2 powr (of_int \<lfloor>log 2 x\<rfloor> + 1)"
proof -
  define k where "k = \<lfloor>log 2 x\<rfloor>"
  define u :: real where "u = 2 powr of_int (k - 52)"
  have u: "0 < u" by (simp add: u_def)
  have pk: "2 powr of_int k = 2 ^ 52 * u"
    by (simp add: u_def powr_diff)
  have pk1: "2 powr (of_int k + 1) = 2 ^ 53 * u"
    by (simp add: u_def powr_diff powr_add)
  have "2 powr of_int k \<le> x" "x < 2 powr (of_int k + 1)"
    using assms floor_log_eq_powr_iff [of x 2 k] by (auto simp: k_def)
  then have "2 ^ 52 * u \<le> x" "x < 2 ^ 53 * u"
    by (simp_all only: pk pk1)
  then have "2 ^ 52 \<le> x / u" "x / u \<le> 2 ^ 53"
    using u by (simp_all add: pos_le_divide_eq pos_divide_le_eq)
  then have "round_half_even (of_int (2 ^ 52)) \<le> round_half_even (x / u)"
    "round_half_even (x / u) \<le> round_half_even (of_int (2 ^ 53))"
    by (auto intro!: round_half_even_mono)
  then have "(2::int) ^ 52 \<le> round_half_even (x / u)"
    "round_half_even (x / u) \<le> (2::int) ^ 53"
    unfolding round_half_even_of_int by simp_all
  then have "(2::real) ^ 52 \<le> of_int (round_half_even (x / u))"
    "of_int (round_half_even (x / u)) \<le> (2::real) ^ 53"
    by (metis of_int_le_iff of_int_numeral of_int_power)+
  then have "2 ^ 52 * u \<le> of_int (round_half_even (x / u)) * u"
    "of_int (round_half_even (x / u)) * u \<le> 2 ^ 53 * u"
    using u by (simp_all add: mult_right_mono)
  moreover have "float64 x = of_int (round_half_even (x / u)) * u"
    using assms by (simp add: float64_def Let_def u_def k_def)
  ultimately show "2 powr of_int \<lfloor>log 2 x\<rfloor> \<le> float64 x"
    "float64 x \<le> 2 powr (of_int \<lfloor>log 2 x\<rfloor> + 1)"
    unfolding k_def [symmetric] by (simp_all only: pk pk1)
qed

lemma float64_pos: "0 < x \<Longrightarrow> 0 < float64 x"
  using float64_range(1) [of x] powr_gt_zero [of 2 "of_int \<lfloor>log 2 x\<rfloor>"] by linarith

lemma float64_mono_pos:
  assumes "0 < x" and "x \<le> y"
  shows "float64 x \<le> float64 y"
proof (cases "\<lfloor>log 2 x\<rfloor> = \<lfloor>log 2 y\<rfloor>")
  case True
  let ?u = "(2::real) powr of_int (\<lfloor>log 2 x\<rfloor> - 52)"
  have "x / ?u \<le> y / ?u"
    using assms by (simp add: divide_right_mono)
  then have "round_half_even (x / ?u) \<le> round_half_even (y / ?u)"
    by (rule round_half_even_mono)
  then have "of_int (round_half_even (x / ?u)) * ?u \<le> of_int (round_half_even (y / ?u)) * ?u"
    by (simp add: mult_right_mono)
  with True assms show ?thesis
    by (simp add: float64_def Let_def)
next
  case False
  have "log 2 x \<le> log 2 y" using assms by simp
  with False have "\<lfloor>log 2 x\<rfloor> + 1 \<le> \<lfloor>log 2 y\<rfloor>"
    using floor_mono [of "log 2 x" "log 2 y"] by linarith
  then have "real_of_int \<lfloor>log 2 x\<rfloor> + 1 \<le> real_of_int \<lfloor>log 2 y\<rfloor>"
    by linarith
  then have "(2::real) powr (of_int \<lfloor>log 2 x\<rfloor> + 1) \<le> 2 powr of_int \<lfloor>log 2 y\<rfloor>"
    by (rule powr_mono) simp
  moreover have "0 < y" using assms by simp
  ultimately show ?thesis
    using float64_range(2) [OF assms(1)] float64_range(1) [of y] by linarith
qed

lemma float64_mono:
  assumes "x \<le> y"
  shows "float64 x \<le> float64 y"
proof -
  consider "0 < x" | "y < 0" | "x \<le> 0" "0 \<le> y" by linarith
  then show ?thesis
  proof cases
    case 1
    then show ?thesis using assms by (rule float64_mono_pos)
  next
    case 2
    then have "float64 (- y) \<le> float64 (- x)"
      using assms by (intro float64_mono_pos) auto
    then show ?thesis by (simp add: float64_minus)
  next
    case 3
    have "float64 x \<le> 0"
    proof (cases "x = 0")
      case False
      with 3 have "0 < float64 (- x)" by (intro float64_pos) auto
      then show ?thesis by (simp add: float64_minus)
    qed simp
    moreover have "0 \<le> float64 y"
    proof (cases "y = 0")
      case False
      with 3 have "0 < float64 y" by (intro float64_pos) auto
      then show ?thesis by simp
    qed simp
    ultimately show ?thesis by linarith
  qed
qed

text \<open>Integers up to \<open>2 ^ 53\<close> in size are float64 values.\<close>

lemma float64_of_int:
  assumes "\<bar>n\<bar> \<le> 2 ^ 53"
  shows "float64 (of_int n) = of_int n"
proof (cases "n = 0")
  case True
  then show ?thesis by simp
next
  case False
  define k where "k = \<lfloor>log 2 \<bar>of_int n :: real\<bar>\<rfloor>"
  define u :: real where "u = 2 powr of_int (k - 52)"
  have n0: "(of_int n :: real) \<noteq> 0" using False by simp
  have "2 powr of_int k \<le> \<bar>of_int n :: real\<bar>"
    unfolding k_def using binade_bounds(1) [OF n0] .
  also have "\<dots> \<le> 2 ^ 53" using assms
    by (metis of_int_abs of_int_le_iff of_int_numeral of_int_power)
  finally have "(2::real) powr of_int k \<le> 2 powr of_int 53" by simp
  then have "(of_int k :: real) \<le> of_int 53"
    by (subst (asm) powr_le_cancel_iff) simp_all
  then have "k \<le> 53" by linarith
  have "\<exists>m::int. of_int n / u = of_int m"
  proof (cases "k \<le> 52")
    case True
    then have "real_of_int (k - 52) = - real (nat (52 - k))" by simp
    then have "u = 1 / 2 powr real (nat (52 - k))"
      unfolding u_def by (simp only: powr_minus_divide)
    then have "u = 1 / 2 ^ nat (52 - k)"
      by (simp only: powr_realpow zero_less_numeral)
    then have "of_int n / u = of_int (n * 2 ^ nat (52 - k))" by simp
    then show ?thesis by blast
  next
    case False
    with \<open>k \<le> 53\<close> have k: "k = 53" by simp
    then have u: "u = 2" by (simp add: u_def)
    have "2 powr of_int 53 \<le> \<bar>of_int n :: real\<bar>"
      using binade_bounds(1) [OF n0] k unfolding k_def by simp
    then have "(2::real) ^ 53 \<le> of_int \<bar>n\<bar>" by simp
    then have "2 ^ 53 \<le> \<bar>n\<bar>"
      by (metis of_int_le_iff of_int_numeral of_int_power)
    with assms have "\<bar>n\<bar> = 2 ^ 53" by simp
    then have "even n"
      by (metis even_abs_add_iff even_add even_numeral even_power zero_less_numeral)
    then obtain m where "n = 2 * m" by (auto elim: evenE)
    then show ?thesis using u by auto
  qed
  then obtain m :: int where m: "of_int n / u = of_int m" by blast
  have "0 < u" by (simp add: u_def)
  have "float64 (of_int n) = of_int (round_half_even (of_int n / u)) * u"
    using n0 by (simp add: float64_def Let_def k_def u_def)
  also have "\<dots> = of_int m * u" by (simp add: m)
  also have "\<dots> = of_int n" using m \<open>0 < u\<close> by (simp add: field_simps)
  finally show ?thesis .
qed

lemma float64_numeral [simp]:
  "numeral w \<le> (9007199254740992::int) \<Longrightarrow> float64 (numeral w) = numeral w"
  using float64_of_int [of "numeral w"] by simp

lemma float64_neg_numeral [simp]:
  "numeral w \<le> (9007199254740992::int) \<Longrightarrow> float64 (- numeral w) = - numeral w"
  using float64_of_int [of "- numeral w"] by simp

lemma float64_one [simp]: "float64 1 = 1"
  using float64_of_int [of 1] by simp

text \<open>The float64 nearest to 2.045 and to 0.1.\<close>

lemma float64_2045: "float64 2.045 = 1151232654746583 / 2 ^ 49"
  by (subst float64_ulp [where e = "- 51" and u = "1 / 2 ^ 51"])
    (simp_all add: powr_minus_divide round_half_even_def)

lemma float64_tenth: "float64 0.1 = 3602879701896397 / 2 ^ 55"
  by (subst float64_ulp [where e = "- 56" and u = "1 / 2 ^ 56"])
    (simp_all add: powr_minus_divide round_half_even_def)

section \<open>Properties of the tracking statistics\<close>

lemma speed_stats_other:
  "k \<notin> {''max_speed_mph'', ''avg_speed_mph'', ''min_speed_mph''} \<Longrightarrow>
     speed_stats fsum df st k = st k"
  by (simp add: speed_stats_def Let_def split: option.splits)

lemma acceleration_stats_other:
  "k \<notin> {''max_acceleration'', ''avg_acceleration''} \<Longrightarrow>
     acceleration_stats fsum df st k = st k"
  by (simp add: acceleration_stats_def Let_def split: option.splits)

lemma distance_stats_other:
  "k \<notin> {''total_distance'', ''avg_distance_per_frame''} \<Longrightarrow>
     distance_stats fsum df st k = st k"
  by (simp add: distance_stats_def Let_def split: option.splits)

lemma frame_stats_other:
  "k \<noteq> ''total_frames'' \<Longrightarrow> frame_stats df st k = st k"
  by (simp add: frame_stats_def)

lemma time_stats_other:
  "k \<noteq> ''total_time_seconds'' \<Longrightarrow> time_stats df st k = st k"
  by (simp add: time_stats_def Let_def split: option.splits)

lemma play_stats_other:
  "k \<noteq> ''play_count'' \<Longrightarrow> play_stats df st k = st k"
  by (simp add: play_stats_def split: option.splits)

lemma direction_stats_other:
  "k \<noteq> ''direction_changes'' \<Longrightarrow> direction_stats df st k = st k"
  by (simp add: direction_stats_def Let_def split: option.splits)

lemmas other_keys = direction_stats_other play_stats_other time_stats_other frame_stats_other
  distance_stats_other acceleration_stats_other speed_stats_other

lemma count_diff_from:
  "length (filter (\<lambda>c. c > 45) (map wraparound (series_abs (diff_from p vs))))
     = length (filter (\<lambda>(d1, d2). circular_dist d1 d2 > 45) (zip (p # vs) vs))"
proof (induction vs arbitrary: p)
  case Nil
  then show ?case by (simp add: series_abs_def)
next
  case (Cons v vs)
  have "float64 (p - v) = - float64 (v - p)"
    using float64_minus [of "v - p"] by simp
  then have "wraparound (Some \<bar>float64 (v - p)\<bar>) = circular_dist p v"
    by (simp add: wraparound_def circular_dist_def)
  with Cons show ?case by (simp add: series_abs_def)
qed

lemma count_series_diff:
  "length (filter (\<lambda>c. c > 45) (map wraparound (series_abs (series_diff ds))))
     = spec_direction_changes ds"
proof (cases ds)
  case Nil
  then show ?thesis
    by (simp add: series_diff_def spec_direction_changes_def series_abs_def)
next
  case (Cons v vs)
  have "length (filter (\<lambda>c. c > 45) (map wraparound (series_abs (None # diff_from v vs))))
      = length (filter (\<lambda>c. c > 45) (map wraparound (series_abs (diff_from v vs))))"
    by (simp add: series_abs_def wraparound_def)
  also have "\<dots> = length (filter (\<lambda>(d1, d2). circular_dist d1 d2 > 45) (zip (v # vs) vs))"
    by (rule count_diff_from)
  finally show ?thesis
    using Cons by (simp add: series_diff_def spec_direction_changes_def)
qed

lemma direction_changes_lookup:
  "calculate_tracking_stats fsum df ''direction_changes'' =
     (if 2 \<le> length (headings df)
      then Some (IntV (int (spec_direction_changes (headings df)))) else None)"
proof (cases "empty_df df")
  case True
  then have "headings df = []"
    by (auto simp: empty_df_def headings_def samples_def column_def)
  with True show ?thesis by (simp add: calculate_tracking_stats_def)
next
  case False
  have "direction_stats df st ''direction_changes'' =
     (if 2 \<le> length (headings df)
      then Some (IntV (int (spec_direction_changes (headings df))))
      else st ''direction_changes'')" for st
    using count_series_diff [of "headings df"]
    by (auto simp: direction_stats_def headings_def samples_def Let_def split: option.splits)
  moreover have "play_stats df (time_stats df (frame_stats df
             (distance_stats fsum df (acceleration_stats fsum df
               (speed_stats fsum df Map.empty))))) ''direction_changes'' = None"
    by (simp add: play_stats_other time_stats_other frame_stats_other distance_stats_other
        acceleration_stats_other speed_stats_other)
  ultimately show ?thesis using False by (simp add: calculate_tracking_stats_def)
qed

lemma consecutive_frame_changes_all_present:
  "consecutive_frame_changes (map Some ds) = spec_direction_changes ds"
proof (induction ds rule: induct_list012)
  case 1
  show ?case by (simp add: spec_direction_changes_def)
next
  case (2 d)
  show ?case by (simp add: spec_direction_changes_def)
next
  case (3 d1 d2 ds)
  then show ?case by (simp add: spec_direction_changes_def)
qed

lemma dropna_all_present:
  "list_all (\<lambda>c. c \<noteq> None) col \<Longrightarrow> map Some (dropna col) = col"
  by (induction col rule: dropna.induct) simp_all


lemma dropna_all_present_length:
  "list_all (\<lambda>c. c \<noteq> None) col \<Longrightarrow> length (dropna col) = length col"
  using dropna_all_present [of col] by (metis length_map)

lemma circular_dist_examples:
  "circular_dist 10 60 = 50" "circular_dist 60 65 = 5" "circular_dist 10 100 = 90"
  "circular_dist 350 10 = 20" "circular_dist 10 420 = - 50"
  by (simp_all add: circular_dist_def)

text \<open>
  Claim C1, amended. When at least two frames have a heading, \<open>direction_changes\<close> is
  the number of pairs of successive headings whose circular distance
  \<open>min(|d1 - d2|, 360 - |d1 - d2|)\<close> is above 45 degrees, where frames without a
  heading are dropped first: the two headings of a pair are successive among the headings
  that are there, and need not come from consecutive frames. When every frame has a
  heading, these are the pairs of consecutive frames. For the headings 10, 60, 65 the
  count is 1.
\<close>

theorem direction_changes_counts_circular_turns:
  "(2 \<le> length (headings df) \<longrightarrow>
      calculate_tracking_stats fsum df ''direction_changes''
        = Some (IntV (int (spec_direction_changes (headings df))))) \<and>
   (''dir'' \<in> set (columns df) \<and> 2 \<le> length (rows df) \<and>
    list_all (\<lambda>f. fr_dir f \<noteq> None) (rows df) \<longrightarrow>
      calculate_tracking_stats fsum df ''direction_changes''
        = Some (IntV (int (consecutive_frame_changes (map fr_dir (rows df)))))) \<and>
   calculate_tracking_stats fsum (heading_frames [Some 10, Some 60, Some 65])
     ''direction_changes'' = Some (IntV 1)"
proof (intro conjI impI)
  show "calculate_tracking_stats fsum df ''direction_changes''
        = Some (IntV (int (spec_direction_changes (headings df))))"
    if "2 \<le> length (headings df)"
    using that by (simp add: direction_changes_lookup)
  show "calculate_tracking_stats fsum df ''direction_changes''
        = Some (IntV (int (consecutive_frame_changes (map fr_dir (rows df)))))"
    if h: "''dir'' \<in> set (columns df) \<and> 2 \<le> length (rows df) \<and>
       list_all (\<lambda>f. fr_dir f \<noteq> None) (rows df)"
  proof -
    from h have all: "list_all (\<lambda>c. c \<noteq> None) (map fr_dir (rows df))"
      by (simp add: list_all_iff)
    from h have hd: "headings df = dropna (map fr_dir (rows df))"
      by (simp add: headings_def samples_def column_def)
    have "length (headings df) = length (rows df)"
      using dropna_all_present_length [OF all] hd by simp
    moreover have "consecutive_frame_changes (map fr_dir (rows df))
        = spec_direction_changes (headings df)"
      using consecutive_frame_changes_all_present [of "headings df"]
        dropna_all_present [OF all] hd by simp
    ultimately show ?thesis
      using h by (simp add: direction_changes_lookup)
  qed
  show "calculate_tracking_stats fsum (heading_frames [Some 10, Some 60, Some 65])
     ''direction_changes'' = Some (IntV 1)"
    by (simp add: direction_changes_lookup headings_def samples_def heading_frames_def
        column_def no_data_def spec_direction_changes_def circular_dist_examples)
qed

text \<open>
  Claim C1 as stated fails: of the frames with headings 10, none, 100 no two consecutive
  ones both have a heading, so no pair of consecutive frames counts; the program pairs
  10 with 100 and reports one direction change.
\<close>

theorem direction_changes_pairs_across_missing_frame:
  "calculate_tracking_stats left_sum (heading_frames [Some 10, None, Some 100])
     ''direction_changes'' = Some (IntV 1) \<and>
   consecutive_frame_changes [Some 10, None, Some 100] = 0"
  by (simp add: direction_changes_lookup headings_def samples_def heading_frames_def
      column_def no_data_def spec_direction_changes_def circular_dist_examples)

theorem direction_changes_counts_circular_turns_witness:
  "2 \<le> length (headings (heading_frames [Some 350, Some 10, Some 100])) \<and>
   ''dir'' \<in> set (columns (heading_frames [Some 350, Some 10, Some 100])) \<and>
   list_all (\<lambda>f. fr_dir f \<noteq> None) (rows (heading_frames [Some 350, Some 10, Some 100])) \<and>
   consecutive_frame_changes [Some 350, Some 10, Some 100] = 1 \<and>
   calculate_tracking_stats left_sum (heading_frames [Some 350, Some 10, Some 100])
     ''direction_changes'' = Some (IntV 1)"
  using direction_changes_counts_circular_turns [of "heading_frames [Some 350, Some 10, Some 100]" left_sum]
  by (simp add: headings_def samples_def heading_frames_def column_def no_data_def
      spec_direction_changes_def circular_dist_examples)

lemma series_max_eq: "vs \<noteq> [] \<Longrightarrow> series_max vs = Max (set vs)"
proof (cases vs)
  case (Cons v vs')
  then show ?thesis using Max.set_eq_fold [of v vs'] by simp
qed simp

lemma series_min_eq: "vs \<noteq> [] \<Longrightarrow> series_min vs = Min (set vs)"
proof (cases vs)
  case (Cons v vs')
  then show ?thesis using Min.set_eq_fold [of v vs'] by simp
qed simp

lemma sum_list_upper:
  "(\<And>v. v \<in> set vs \<Longrightarrow> v \<le> m) \<Longrightarrow> sum_list vs \<le> real (length vs) * (m::real)"
  by (induction vs) (auto simp: algebra_simps intro: add_mono)

lemma sum_list_lower:
  "(\<And>v. v \<in> set vs \<Longrightarrow> m \<le> v) \<Longrightarrow> real (length vs) * (m::real) \<le> sum_list vs"
  by (induction vs) (auto simp: algebra_simps intro: add_mono)

lemma exact_mean_le_max: "vs \<noteq> [] \<Longrightarrow> sum_list vs / real (length vs) \<le> Max (set vs)"
  using sum_list_upper [of vs "Max (set vs)"]
  by (simp add: pos_divide_le_eq mult.commute)

lemma min_le_exact_mean: "vs \<noteq> [] \<Longrightarrow> Min (set vs) \<le> sum_list vs / real (length vs)"
  using sum_list_lower [of vs "Min (set vs)"]
  by (simp add: pos_le_divide_eq mult.commute)

lemma scaled_mono:
  assumes "0 < c" and "x \<le> y"
  shows "float64 (x * c) \<le> float64 (y * c)"
proof -
  have "x * c \<le> y * c"
    using assms by (simp add: mult_right_mono)
  then show ?thesis by (rule float64_mono)
qed

lemma mph_factor_pos: "0 < float64 2.045"
  by (rule float64_pos) simp

lemma speed_lookup:
  assumes "k \<in> {''max_speed_mph'', ''avg_speed_mph'', ''min_speed_mph''}"
  shows "calculate_tracking_stats fsum df k = speed_stats fsum df Map.empty k"
proof (cases "empty_df df")
  case True
  then have "samples df ''s'' fr_s = []"
    by (auto simp: empty_df_def samples_def column_def)
  then have "speed_stats fsum df Map.empty k = None"
    by (auto simp: speed_stats_def samples_def Let_def split: option.splits)
  with True show ?thesis by (simp add: calculate_tracking_stats_def)
next
  case False
  with assms show ?thesis
    by (auto simp: calculate_tracking_stats_def direction_stats_other play_stats_other
        time_stats_other frame_stats_other distance_stats_other acceleration_stats_other)
qed

text \<open>
  Claim C2, amended. With at least one speed sample, the three speed statistics are the
  maximum, the mean and the minimum of the samples, each times 2.045, in float64
  arithmetic, and the maximum statistic is at least the minimum statistic. The average
  is between the two whenever the float64 mean is between the least and the greatest
  sample, as it is when the mean is computed without rounding error.
\<close>

theorem speed_stats_scaled_and_ordered:
  assumes "samples df ''s'' fr_s \<noteq> []"
  shows
    "calculate_tracking_stats fsum df ''max_speed_mph''
       = Some (FloatV (float64 (Max (set (samples df ''s'' fr_s)) * float64 2.045))) \<and>
     calculate_tracking_stats fsum df ''avg_speed_mph''
       = Some (FloatV (float64 (series_mean fsum (samples df ''s'' fr_s) * float64 2.045))) \<and>
     calculate_tracking_stats fsum df ''min_speed_mph''
       = Some (FloatV (float64 (Min (set (samples df ''s'' fr_s)) * float64 2.045))) \<and>
     float64 (Min (set (samples df ''s'' fr_s)) * float64 2.045)
       \<le> float64 (Max (set (samples df ''s'' fr_s)) * float64 2.045) \<and>
     (Min (set (samples df ''s'' fr_s)) \<le> series_mean fsum (samples df ''s'' fr_s) \<and>
      series_mean fsum (samples df ''s'' fr_s) \<le> Max (set (samples df ''s'' fr_s)) \<longrightarrow>
        float64 (Min (set (samples df ''s'' fr_s)) * float64 2.045)
          \<le> float64 (series_mean fsum (samples df ''s'' fr_s) * float64 2.045) \<and>
        float64 (series_mean fsum (samples df ''s'' fr_s) * float64 2.045)
          \<le> float64 (Max (set (samples df ''s'' fr_s)) * float64 2.045)) \<and>
     (series_mean fsum (samples df ''s'' fr_s)
        = sum_list (samples df ''s'' fr_s) / real (length (samples df ''s'' fr_s)) \<longrightarrow>
        float64 (Min (set (samples df ''s'' fr_s)) * float64 2.045)
          \<le> float64 (series_mean fsum (samples df ''s'' fr_s) * float64 2.045) \<and>
        float64 (series_mean fsum (samples df ''s'' fr_s) * float64 2.045)
          \<le> float64 (Max (set (samples df ''s'' fr_s)) * float64 2.045))"
proof -
  let ?vs = "samples df ''s'' fr_s"
  let ?c = "float64 2.045"
  note mono = scaled_mono [OF mph_factor_pos]
  have "speed_stats fsum df Map.empty ''max_speed_mph''
      = Some (FloatV (float64 (Max (set ?vs) * ?c)))"
    using assms series_max_eq [of ?vs]
    by (auto simp: speed_stats_def samples_def Let_def split: option.splits)
  then have a: "calculate_tracking_stats fsum df ''max_speed_mph''
      = Some (FloatV (float64 (Max (set ?vs) * ?c)))"
    by (simp add: speed_lookup)
  have "speed_stats fsum df Map.empty ''avg_speed_mph''
      = Some (FloatV (float64 (series_mean fsum ?vs * ?c)))"
    using assms
    by (auto simp: speed_stats_def samples_def Let_def split: option.splits)
  then have b: "calculate_tracking_stats fsum df ''avg_speed_mph''
      = Some (FloatV (float64 (series_mean fsum ?vs * ?c)))"
    by (simp add: speed_lookup)
  have "speed_stats fsum df Map.empty ''min_speed_mph''
      = Some (FloatV (float64 (Min (set ?vs) * ?c)))"
    using assms series_min_eq [of ?vs]
    by (auto simp: speed_stats_def samples_def Let_def split: option.splits)
  then have c: "calculate_tracking_stats fsum df ''min_speed_mph''
      = Some (FloatV (float64 (Min (set ?vs) * ?c)))"
    by (simp add: speed_lookup)
  have "Min (set ?vs) \<le> Max (set ?vs)"
    using assms by simp
  then have d: "float64 (Min (set ?vs) * ?c) \<le> float64 (Max (set ?vs) * ?c)"
    by (rule mono)
  have e: "float64 (Min (set ?vs) * ?c) \<le> float64 (series_mean fsum ?vs * ?c) \<and>
      float64 (series_mean fsum ?vs * ?c) \<le> float64 (Max (set ?vs) * ?c)"
    if "Min (set ?vs) \<le> series_mean fsum ?vs \<and> series_mean fsum ?vs \<le> Max (set ?vs)"
    using that by (blast intro: mono)
  have f: "float64 (Min (set ?vs) * ?c) \<le> float64 (series_mean fsum ?vs * ?c) \<and>
      float64 (series_mean fsum ?vs * ?c) \<le> float64 (Max (set ?vs) * ?c)"
    if "series_mean fsum ?vs = sum_list ?vs / real (length ?vs)"
    using e exact_mean_le_max [OF assms] min_le_exact_mean [OF assms] unfolding that by blast
  from a b c d e f show ?thesis by blast
qed

text \<open>The float64 computation of the mean of three samples of 0.1 and of its scaling.\<close>

lemma float64_tenth_fixed:
  "float64 (3602879701896397 / 36028797018963968) = 3602879701896397 / 36028797018963968"
  by (subst float64_ulp [where e = "- 56" and u = "1 / 2 ^ 56"])
    (simp_all add: powr_minus_divide round_half_even_def)

lemma float64_two_tenths:
  "float64 (3602879701896397 / 18014398509481984) = 3602879701896397 / 18014398509481984"
  by (subst float64_ulp [where e = "- 55" and u = "1 / 2 ^ 55"])
    (simp_all add: powr_minus_divide round_half_even_def)

lemma float64_three_tenths:
  "float64 (10808639105689191 / 36028797018963968) = 1351079888211149 / 4503599627370496"
  by (subst float64_ulp [where e = "- 54" and u = "1 / 2 ^ 54"])
    (simp_all add: powr_minus_divide round_half_even_def)

lemma float64_mean_tenths:
  "float64 (1351079888211149 / 13510798882111488) = 7205759403792795 / 72057594037927936"
  by (subst float64_ulp [where e = "- 56" and u = "1 / 2 ^ 56"])
    (simp_all add: powr_minus_divide round_half_even_def)

lemma float64_avg_mph:
  "float64 (8295505527893534526889766269485 / 40564819207303340847894502572032)
     = 7367888990378133 / 36028797018963968"
  by (subst float64_ulp [where e = "- 55" and u = "1 / 2 ^ 55"])
    (simp_all add: powr_minus_divide round_half_even_def)

lemma float64_max_mph:
  "float64 (4147752763946766687828555761451 / 20282409603651670423947251286016)
     = 1841972247594533 / 9007199254740992"
  by (subst float64_ulp [where e = "- 55" and u = "1 / 2 ^ 55"])
    (simp_all add: powr_minus_divide round_half_even_def)

lemma float64_mph_factor: "float64 (409 / 200) = 1151232654746583 / 562949953421312"
  using float64_2045 by simp

lemmas tenths = float64_tenth float64_mph_factor float64_tenth_fixed float64_two_tenths
  float64_three_tenths float64_mean_tenths float64_avg_mph float64_max_mph

lemma speed_frames_samples: "samples (speed_frames cs) ''s'' fr_s = dropna cs"
  by (simp add: samples_def column_def speed_frames_def comp_def no_data_def)

text \<open>
  Claim C2 as stated fails: for three samples of 0.1 the float64 sum is
  0.30000000000000004 and the mean 0.10000000000000002, above every sample; the average
  statistic is 0.20450000000000004 and the maximum statistic 0.20450000000000002, one
  unit in the last place less.
\<close>

theorem rounded_mean_exceeds_max:
  "calculate_tracking_stats left_sum
     (speed_frames [Some (float64 0.1), Some (float64 0.1), Some (float64 0.1)])
     ''avg_speed_mph'' = Some (FloatV (7367888990378133 / 2 ^ 55)) \<and>
   calculate_tracking_stats left_sum
     (speed_frames [Some (float64 0.1), Some (float64 0.1), Some (float64 0.1)])
     ''max_speed_mph'' = Some (FloatV (7367888990378132 / 2 ^ 55))"
  by (simp add: speed_lookup speed_stats_def column_def speed_frames_def no_data_def
      series_mean_def left_sum_def tenths)

lemma float64_mph_5:
  "float64 (5756163273732915 / 562949953421312) = 5756163273732915 / 562949953421312"
  by (subst float64_ulp [where e = "- 49" and u = "1 / 2 ^ 49"])
    (simp_all add: powr_minus_divide round_half_even_def)

lemma float64_mph_10:
  "float64 (5756163273732915 / 281474976710656) = 5756163273732915 / 281474976710656"
  by (subst float64_ulp [where e = "- 48" and u = "1 / 2 ^ 48"])
    (simp_all add: powr_minus_divide round_half_even_def)

lemma float64_mph_15:
  "float64 (17268489821198745 / 562949953421312) = 2158561227649843 / 70368744177664"
  by (subst float64_ulp [where e = "- 48" and u = "1 / 2 ^ 48"])
    (simp_all add: powr_minus_divide round_half_even_def)

theorem speed_stats_scaled_and_ordered_witness:
  "samples (speed_frames [Some 5, Some 10, Some 15]) ''s'' fr_s \<noteq> [] \<and>
   series_mean left_sum (samples (speed_frames [Some 5, Some 10, Some 15]) ''s'' fr_s) = 10 \<and>
   calculate_tracking_stats left_sum (speed_frames [Some 5, Some 10, Some 15])
     ''max_speed_mph'' = Some (FloatV (2158561227649843 / 2 ^ 46)) \<and>
   calculate_tracking_stats left_sum (speed_frames [Some 5, Some 10, Some 15])
     ''avg_speed_mph'' = Some (FloatV (5756163273732915 / 2 ^ 48)) \<and>
   calculate_tracking_stats left_sum (speed_frames [Some 5, Some 10, Some 15])
     ''min_speed_mph'' = Some (FloatV (5756163273732915 / 2 ^ 49))"
  using speed_stats_scaled_and_ordered [of "speed_frames [Some 5, Some 10, Some 15]" left_sum]
  by (simp add: speed_frames_samples series_mean_def left_sum_def float64_mph_factor
      float64_mph_5 float64_mph_10 float64_mph_15)

lemma empty_df_samples: "empty_df df \<Longrightarrow> samples df name field = []"
  by (auto simp: empty_df_def samples_def column_def)

lemma dropna_empty_iff: "dropna col = [] \<longleftrightarrow> (\<forall>c \<in> set col. c = None)"
  by (induction col rule: dropna.induct) simp_all

lemma samples_empty_iff:
  "samples df name field = [] \<longleftrightarrow>
     name \<notin> set (columns df) \<or> (\<forall>r \<in> set (rows df). field r = None)"
  by (simp add: samples_def column_def dropna_empty_iff)

lemma speed_absent:
  assumes "samples df ''s'' fr_s = []"
    and "k \<in> {''max_speed_mph'', ''avg_speed_mph'', ''min_speed_mph''}"
  shows "calculate_tracking_stats fsum df k = None"
proof -
  have "speed_stats fsum df Map.empty = Map.empty"
    using assms(1) by (auto simp: speed_stats_def samples_def Let_def split: option.splits)
  with assms(2) show ?thesis by (auto simp: speed_lookup)
qed

lemma acceleration_absent:
  assumes "samples df ''a'' fr_a = []"
    and "k \<in> {''max_acceleration'', ''avg_acceleration''}"
  shows "calculate_tracking_stats fsum df k = None"
proof -
  have "acceleration_stats fsum df st = st" for st
    using assms(1) by (auto simp: acceleration_stats_def samples_def Let_def split: option.splits)
  with assms(2) show ?thesis
    by (auto simp: calculate_tracking_stats_def other_keys)
qed

lemma distance_absent:
  assumes "samples df ''dis'' fr_dis = []"
    and "k \<in> {''total_distance'', ''avg_distance_per_frame''}"
  shows "calculate_tracking_stats fsum df k = None"
proof -
  have "distance_stats fsum df st = st" for st
    using assms(1) by (auto simp: distance_stats_def samples_def Let_def split: option.splits)
  with assms(2) show ?thesis
    by (auto simp: calculate_tracking_stats_def other_keys)
qed

lemma time_absent:
  assumes "length (samples df ''ts'' fr_ts) \<le> 1"
  shows "calculate_tracking_stats fsum df ''total_time_seconds'' = None"
proof -
  have "time_stats df st = st" for st
    using assms by (auto simp: time_stats_def samples_def Let_def split: option.splits)
  then show ?thesis
    by (auto simp: calculate_tracking_stats_def other_keys)
qed

lemma total_frames_lookup:
  "\<not> empty_df df \<Longrightarrow>
     calculate_tracking_stats fsum df ''total_frames'' = Some (IntV (int (length (rows df))))"
  by (simp add: calculate_tracking_stats_def other_keys) (simp add: frame_stats_def)

lemma play_count_lookup:
  "calculate_tracking_stats fsum df ''play_count'' =
     (if empty_df df then None
      else if ''play_id'' \<in> set (columns df)
        then Some (IntV (int (nunique (map fr_play_id (rows df)))))
      else if ''playId'' \<in> set (columns df)
        then Some (IntV (int (nunique (map fr_playId (rows df)))))
      else None)"
proof -
  have "play_stats df st ''play_count'' =
     (if ''play_id'' \<in> set (columns df)
        then Some (IntV (int (nunique (map fr_play_id (rows df)))))
      else if ''playId'' \<in> set (columns df)
        then Some (IntV (int (nunique (map fr_playId (rows df)))))
      else st ''play_count'')" for st
    by (simp add: play_stats_def column_def)
  then show ?thesis
    by (simp add: calculate_tracking_stats_def other_keys)
qed

text \<open>
  Claim C7 as stated fails: an empty table gets no \<open>total_frames\<close>, and a play column
  with no value is reported as a play count of zero.
\<close>

theorem empty_table_has_no_total_frames:
  "calculate_tracking_stats left_sum \<lparr>rows = [], columns = [''s'', ''dir'']\<rparr> ''total_frames''
     = None \<and>
   calculate_tracking_stats left_sum \<lparr>rows = [no_data], columns = [''play_id'']\<rparr> ''play_count''
     = Some (IntV 0)"
proof
  show "calculate_tracking_stats left_sum \<lparr>rows = [], columns = [''s'', ''dir'']\<rparr>
      ''total_frames'' = None"
    by (simp add: calculate_tracking_stats_def empty_df_def)
  show "calculate_tracking_stats left_sum \<lparr>rows = [no_data], columns = [''play_id'']\<rparr>
      ''play_count'' = Some (IntV 0)"
    by (simp add: play_count_lookup empty_df_def nunique_def no_data_def)
qed

text \<open>
  Claim C7, amended. The statistics of an empty table are the empty mapping; for every
  other table \<open>total_frames\<close> is the number of rows. The speed, acceleration and
  distance statistics are absent when their column is absent or holds no value, the total
  time and the direction changes when fewer than two values are there. \<open>play_count\<close>
  is the exception: it is set whenever the table is not empty and has a play column,
  also when every play identifier is missing.
\<close>

theorem stats_keys_absent_without_data:
  "(if empty_df df then calculate_tracking_stats fsum df = Map.empty
    else calculate_tracking_stats fsum df ''total_frames''
           = Some (IntV (int (length (rows df))))) \<and>
   (samples df ''s'' fr_s = [] \<longrightarrow>
      calculate_tracking_stats fsum df ''max_speed_mph'' = None \<and>
      calculate_tracking_stats fsum df ''avg_speed_mph'' = None \<and>
      calculate_tracking_stats fsum df ''min_speed_mph'' = None) \<and>
   (samples df ''a'' fr_a = [] \<longrightarrow>
      calculate_tracking_stats fsum df ''max_acceleration'' = None \<and>
      calculate_tracking_stats fsum df ''avg_acceleration'' = None) \<and>
   (samples df ''dis'' fr_dis = [] \<longrightarrow>
      calculate_tracking_stats fsum df ''total_distance'' = None \<and>
      calculate_tracking_stats fsum df ''avg_distance_per_frame'' = None) \<and>
   (length (samples df ''ts'' fr_ts) \<le> 1 \<longrightarrow>
      calculate_tracking_stats fsum df ''total_time_seconds'' = None) \<and>
   (length (headings df) \<le> 1 \<longrightarrow>
      calculate_tracking_stats fsum df ''direction_changes'' = None) \<and>
   calculate_tracking_stats fsum df ''play_count'' =
     (if empty_df df then None
      else if ''play_id'' \<in> set (columns df)
        then Some (IntV (int (nunique (map fr_play_id (rows df)))))
      else if ''playId'' \<in> set (columns df)
        then Some (IntV (int (nunique (map fr_playId (rows df)))))
      else None)"
proof -
  have "calculate_tracking_stats fsum df = Map.empty" if "empty_df df"
    using that by (simp add: calculate_tracking_stats_def)
  then show ?thesis
    using total_frames_lookup [of df fsum] play_count_lookup [of fsum df]
    by (simp add: speed_absent acceleration_absent distance_absent time_absent
        direction_changes_lookup)
qed

theorem stats_keys_absent_without_data_witness:
  "\<not> empty_df \<lparr>rows = [no_data, no_data\<lparr>fr_ts := Some 3, fr_dir := Some 90\<rparr>],
               columns = [''s'', ''dis'', ''ts'', ''dir'']\<rparr> \<and>
   samples \<lparr>rows = [no_data, no_data\<lparr>fr_ts := Some 3, fr_dir := Some 90\<rparr>],
               columns = [''s'', ''dis'', ''ts'', ''dir'']\<rparr> ''s'' fr_s = [] \<and>
   calculate_tracking_stats left_sum
     \<lparr>rows = [no_data, no_data\<lparr>fr_ts := Some 3, fr_dir := Some 90\<rparr>],
      columns = [''s'', ''dis'', ''ts'', ''dir'']\<rparr> ''total_frames'' = Some (IntV 2) \<and>
   calculate_tracking_stats left_sum
     \<lparr>rows = [no_data, no_data\<lparr>fr_ts := Some 3, fr_dir := Some 90\<rparr>],
      columns = [''s'', ''dis'', ''ts'', ''dir'']\<rparr> ''max_speed_mph'' = None \<and>
   calculate_tracking_stats left_sum
     \<lparr>rows = [no_data, no_data\<lparr>fr_ts := Some 3, fr_dir := Some 90\<rparr>],
      columns = [''s'', ''dis'', ''ts'', ''dir'']\<rparr> ''max_acceleration'' = None \<and>
   calculate_tracking_stats left_sum
     \<lparr>rows = [no_data, no_data\<lparr>fr_ts := Some 3, fr_dir := Some 90\<rparr>],
      columns = [''s'', ''dis'', ''ts'', ''dir'']\<rparr> ''total_distance'' = None \<and>
   calculate_tracking_stats left_sum
     \<lparr>rows = [no_data, no_data\<lparr>fr_ts := Some 3, fr_dir := Some 90\<rparr>],
      columns = [''s'', ''dis'', ''ts'', ''dir'']\<rparr> ''total_time_seconds'' = None \<and>
   calculate_tracking_stats left_sum
     \<lparr>rows = [no_data, no_data\<lparr>fr_ts := Some 3, fr_dir := Some 90\<rparr>],
      columns = [''s'', ''dis'', ''ts'', ''dir'']\<rparr> ''direction_changes'' = None \<and>
   calculate_tracking_stats left_sum
     \<lparr>rows = [no_data, no_data\<lparr>fr_ts := Some 3, fr_dir := Some 90\<rparr>],
      columns = [''s'', ''dis'', ''ts'', ''dir'']\<rparr> ''play_count'' = None"
  using stats_keys_absent_without_data [of "\<lparr>rows = [no_data, no_data\<lparr>fr_ts := Some 3, fr_dir := Some 90\<rparr>],
               columns = [''s'', ''dis'', ''ts'', ''dir'']\<rparr>" left_sum]
  by (simp add: empty_df_def samples_def headings_def column_def no_data_def)




lemma exact_turns_Cons2:
  "exact_turns (d1 # d2 # ds) \<longleftrightarrow>
     \<bar>d2 - d1\<bar> \<le> 360 \<and> float64 (d2 - d1) = d2 - d1 \<and>
     float64 (360 - \<bar>d2 - d1\<bar>) = 360 - \<bar>d2 - d1\<bar> \<and> exact_turns (d2 # ds)"
  by (simp add: exact_turns_def)




text \<open>Headings in whole degrees whose successive differences stay within the circle are
  subtracted without rounding.\<close>

lemma whole_degrees_exact:
  assumes "list_all (\<lambda>d. d \<in> \<int>) ds"
    and "list_all (\<lambda>(d1, d2). \<bar>d2 - d1\<bar> \<le> 360) (zip ds (tl ds))"
  shows "exact_turns ds"
  using assms
proof (induction ds rule: induct_list012)
  case 1
  show ?case by (simp add: exact_turns_def)
next
  case (2 d)
  show ?case by (simp add: exact_turns_def)
next
  case (3 d1 d2 ds)
  from "3.prems"(1) obtain n1 n2 :: int where n: "d1 = of_int n1" "d2 = of_int n2"
    by (auto elim!: Ints_cases)
  from "3.prems"(2) have b: "\<bar>d2 - d1\<bar> \<le> 360" by simp
  then have "\<bar>n2 - n1\<bar> \<le> 360" unfolding n by linarith
  then have "float64 (of_int (n2 - n1)) = of_int (n2 - n1)"
    "float64 (of_int (360 - \<bar>n2 - n1\<bar>)) = of_int (360 - \<bar>n2 - n1\<bar>)"
    by (intro float64_of_int; simp)+
  then have "float64 (d2 - d1) = d2 - d1" "float64 (360 - \<bar>d2 - d1\<bar>) = 360 - \<bar>d2 - d1\<bar>"
    unfolding n by simp_all
  moreover have "exact_turns (d2 # ds)"
    using "3.IH"(2) "3.prems" by simp
  ultimately show ?case
    using b by (simp add: exact_turns_Cons2)
qed














section \<open>Properties of the zone analysis\<close>

lemma left_right_total:
  "heat_map_zones df = Some z \<Longrightarrow> left_side z + right_side z = total_x z"
  by (auto simp: heat_map_zones_def Let_def not_less [symmetric] sum_length_filter_compl split: if_splits)

text \<open>
  Claim C3 says the middle-band percentage is taken over the frames with a valid \<open>y\<close>.
  The program divides the count of the middle band by \<open>total\<close>, the number of valid
  \<open>x\<close> coordinates. For two frames with \<open>y\<close> 25 and 26, of which one lacks \<open>x\<close>, it
  shows 200 percent where two of two valid \<open>y\<close> are 100 percent.
\<close>

theorem middle_band_divided_by_valid_x:
  "map_option middle_of_field_metric
     (heat_map_zones \<lparr>rows = [no_data\<lparr>fr_x := Some 50, fr_y := Some 25\<rparr>,
                              no_data\<lparr>fr_y := Some 26\<rparr>],
                      columns = [''x'', ''y'']\<rparr>) = Some (Some 200) \<and>
   percent 2 (length (samples \<lparr>rows = [no_data\<lparr>fr_x := Some 50, fr_y := Some 25\<rparr>,
                              no_data\<lparr>fr_y := Some 26\<rparr>],
                      columns = [''x'', ''y'']\<rparr> ''y'' fr_y)) = Some 100"
  by (simp add: heat_map_zones_def percent_def samples_def column_def no_data_def Let_def)

section \<open>Properties of the rankings table\<close>

lemma mset_pair_cases:
  assumes "mset xs = {#a, b#}"
  shows "xs = [a, b] \<or> xs = [b, a]"
proof -
  from assms have "length xs = 2"
    using mset_eq_length [of xs "[a, b]"] by simp
  then obtain x y where xs: "xs = [x, y]"
    by (cases xs; cases "tl xs") auto
  with assms have "{#x, y#} = {#a, b#}" by simp
  then have "x = a \<and> y = b \<or> x = b \<and> y = a"
    by (auto simp: add_eq_conv_ex)
  with xs show ?thesis by auto
qed

text \<open>
  Claim C4 says the rows of a category are in the order of the chosen sort key. On a
  table with all fourteen display columns and two Elite prospects, A (RAS 5, composite
  rank 1) and B (RAS 9, rank 2), with "RAS" chosen: the only result of the sort by RAS
  descending is B before A, and the formatter, which sorts what it is given again by
  category and composite rank, shows A before B.
\<close>

theorem great_table_ignores_chosen_sort:
  "(sort_values_result RAS False
      [example_prospect ''A'' ''Elite'' (Some 5) (Some 1),
       example_prospect ''B'' ''Elite'' (Some 9) (Some 2)] sorted_rows
    \<longleftrightarrow> sorted_rows = [example_prospect ''B'' ''Elite'' (Some 9) (Some 2),
                       example_prospect ''A'' ''Elite'' (Some 5) (Some 1)]) \<and>
   rankings_tab RAS_Choice
     \<lparr>rows = [example_prospect ''A'' ''Elite'' (Some 5) (Some 1),
              example_prospect ''B'' ''Elite'' (Some 9) (Some 2)],
      columns = rankings_columns\<rparr>
     [example_prospect ''B'' ''Elite'' (Some 9) (Some 2),
      example_prospect ''A'' ''Elite'' (Some 5) (Some 1)]
     = Inr (Great_Table
         [(Some ''Elite'', [example_prospect ''A'' ''Elite'' (Some 5) (Some 1),
                            example_prospect ''B'' ''Elite'' (Some 9) (Some 2)])])"
proof
  let ?A = "example_prospect ''A'' ''Elite'' (Some 5) (Some 1)"
  let ?B = "example_prospect ''B'' ''Elite'' (Some 9) (Some 2)"
  have keys: "RAS ?A = Some 5" "RAS ?B = Some 9"
    by (simp_all add: example_prospect_def)
  show "sort_values_result RAS False [?A, ?B] sorted_rows \<longleftrightarrow> sorted_rows = [?B, ?A]"
  proof
    assume r: "sort_values_result RAS False [?A, ?B] sorted_rows"
    then have "mset sorted_rows = {#?A, ?B#}"
      by (simp add: sort_values_result_def)
    then have "sorted_rows = [?A, ?B] \<or> sorted_rows = [?B, ?A]"
      by (rule mset_pair_cases)
    moreover have "sorted_rows \<noteq> [?A, ?B]"
      using r keys by (auto simp: sort_values_result_def nan_last_key_def)
    ultimately show "sorted_rows = [?B, ?A]" by blast
  next
    assume "sorted_rows = [?B, ?A]"
    then show "sort_values_result RAS False [?A, ?B] sorted_rows"
      using keys by (simp add: sort_values_result_def nan_last_key_def)
  qed
  show "rankings_tab RAS_Choice \<lparr>rows = [?A, ?B], columns = rankings_columns\<rparr> [?B, ?A]
      = Inr (Great_Table [(Some ''Elite'', [?A, ?B])])"
    by (simp add: rankings_tab_def create_great_table_def group_rows_def unique_values_def
        rankings_columns_def display_cols_def category_order_index_def CATEGORY_ORDER_def
        nan_last_key_def example_prospect_def)
qed

lemma fallback_keeps_chosen_order:
  "rankings_tab RAS_Choice
     \<lparr>rows = [example_prospect ''A'' ''Elite'' (Some 5) (Some 1),
              example_prospect ''B'' ''Elite'' (Some 9) (Some 2)],
      columns = [''player_display_name'', ''position'', ''RAS'', ''composite_rank'',
                 ''player_category'']\<rparr>
     [example_prospect ''B'' ''Elite'' (Some 9) (Some 2),
      example_prospect ''A'' ''Elite'' (Some 5) (Some 1)]
     = Inr (Fallback_Table [example_prospect ''B'' ''Elite'' (Some 9) (Some 2),
                            example_prospect ''A'' ''Elite'' (Some 5) (Some 1)])"
  by (simp add: rankings_tab_def create_great_table_def display_cols_def)

lemma category_order_index_known:
  "category_order_index (Some ''Elite'') = 0 \<and> category_order_index (Some ''Producer'') = 1 \<and>
   category_order_index (Some ''Developmental'') = 5 \<and>
   category_order_index (Some ''Sleeper'') = 99 \<and> category_order_index None = 99"
  by (simp add: category_order_index_def CATEGORY_ORDER_def)

section \<open>Properties of the sidebar filters\<close>

lemma category_step_all:
  assumes "\<And>r. r \<in> set rs \<Longrightarrow> player_category r \<in> set selected"
  shows "category_step selected rs = rs"
  using assms by (simp add: category_step_def)

lemma position_step_subset: "set (position_step pos rs) \<subseteq> set rs"
  by (auto simp: position_step_def)

lemma pipeline_empty_selection:
  assumes "\<And>r. r \<in> set (rows df) \<Longrightarrow> player_category r \<in> set (available_categories df)"
  shows "filter_pipeline df (spec\<lparr>selected_categories := []\<rparr>)
       = filter_pipeline df (spec\<lparr>selected_categories := available_categories df\<rparr>)"
proof -
  have "category_step (available_categories df) (position_step (position_filter spec) (rows df))
      = position_step (position_filter spec) (rows df)"
    using assms position_step_subset [of "position_filter spec" "rows df"]
    by (intro category_step_all) auto
  moreover have "category_step [] rs = rs" for rs
    by (simp add: category_step_def)
  ultimately show ?thesis
    by (auto simp: filter_pipeline_def)
qed

lemma recognized_available:
  assumes "r \<in> set (rows df)" and "player_category r \<in> Some ` set CATEGORY_ORDER"
  shows "player_category r \<in> set (available_categories df)"
proof -
  have "player_category r \<in> set (filter (\<lambda>c. c \<in> set (unique_values (map player_category (rows df))))
          (map Some CATEGORY_ORDER))"
    using assms by (auto simp: unique_values_def)
  then show ?thesis
    by (auto simp: available_categories_def Let_def)
qed

text \<open>
  Claim C5 as stated fails: in a table with an Elite and a Sleeper prospect only Elite is
  offered; selecting all that is offered drops the Sleeper, selecting nothing keeps both.
\<close>

theorem empty_selection_keeps_unoffered_category:
  "filter_pipeline
     \<lparr>rows = [example_prospect ''A'' ''Elite'' (Some 5) (Some 1),
              example_prospect ''B'' ''Sleeper'' (Some 9) (Some 2)],
      columns = rankings_columns\<rparr>
     \<lparr>position_filter = ''All'', selected_categories = [],
      year_range = (2000, 2030), ras_range = (0, 10)\<rparr>
     = Inr [example_prospect ''A'' ''Elite'' (Some 5) (Some 1),
            example_prospect ''B'' ''Sleeper'' (Some 9) (Some 2)] \<and>
   filter_pipeline
     \<lparr>rows = [example_prospect ''A'' ''Elite'' (Some 5) (Some 1),
              example_prospect ''B'' ''Sleeper'' (Some 9) (Some 2)],
      columns = rankings_columns\<rparr>
     \<lparr>position_filter = ''All'',
      selected_categories = available_categories
        \<lparr>rows = [example_prospect ''A'' ''Elite'' (Some 5) (Some 1),
                 example_prospect ''B'' ''Sleeper'' (Some 9) (Some 2)],
         columns = rankings_columns\<rparr>,
      year_range = (2000, 2030), ras_range = (0, 10)\<rparr>
     = Inr [example_prospect ''A'' ''Elite'' (Some 5) (Some 1)]"
  by (simp add: filter_pipeline_def rankings_columns_def available_categories_def
      unique_values_def CATEGORY_ORDER_def example_prospect_def position_step_def
      category_step_def year_step_def year_filter_active_def ras_step_def cell_ge_def
      cell_le_def isna_def Let_def)

text \<open>
  Claim C5, amended. With no category selected the pipeline gives the same rows as with
  every available category selected, provided the category of every row is among the
  available ones; that is so in particular when every row has one of the six known
  categories.
\<close>

theorem empty_selection_as_all_available:
  "((\<forall>r \<in> set (rows df). player_category r \<in> set (available_categories df)) \<longrightarrow>
      filter_pipeline df (spec\<lparr>selected_categories := []\<rparr>)
        = filter_pipeline df (spec\<lparr>selected_categories := available_categories df\<rparr>)) \<and>
   ((\<forall>r \<in> set (rows df). player_category r \<in> Some ` set CATEGORY_ORDER) \<longrightarrow>
      filter_pipeline df (spec\<lparr>selected_categories := []\<rparr>)
        = filter_pipeline df (spec\<lparr>selected_categories := available_categories df\<rparr>))"
  using pipeline_empty_selection [of df spec] recognized_available [of _ df] by blast

theorem empty_selection_as_all_available_witness:
  "set (map player_category [example_prospect ''A'' ''Elite'' (Some 5) (Some 1),
                             example_prospect ''B'' ''Producer'' None (Some 2)])
     \<subseteq> Some ` set CATEGORY_ORDER \<and>
   filter_pipeline
     \<lparr>rows = [example_prospect ''A'' ''Elite'' (Some 5) (Some 1),
              example_prospect ''B'' ''Producer'' None (Some 2)],
      columns = rankings_columns\<rparr>
     \<lparr>position_filter = ''All'', selected_categories = [],
      year_range = (2000, 2030), ras_range = (6, 10)\<rparr>
   = Inr [example_prospect ''B'' ''Producer'' None (Some 2)] \<and>
   filter_pipeline
     \<lparr>rows = [example_prospect ''A'' ''Elite'' (Some 5) (Some 1),
              example_prospect ''B'' ''Producer'' None (Some 2)],
      columns = rankings_columns\<rparr>
     \<lparr>position_filter = ''All'',
      selected_categories = available_categories \<lparr>rows = [example_prospect ''A'' ''Elite'' (Some 5) (Some 1),
              example_prospect ''B'' ''Producer'' None (Some 2)],
      columns = rankings_columns\<rparr>,
      year_range = (2000, 2030), ras_range = (6, 10)\<rparr>
   = Inr [example_prospect ''B'' ''Producer'' None (Some 2)]"
  using empty_selection_as_all_available [of "\<lparr>rows = [example_prospect ''A'' ''Elite'' (Some 5) (Some 1),
              example_prospect ''B'' ''Producer'' None (Some 2)],
      columns = rankings_columns\<rparr>"
     "\<lparr>position_filter = ''All'', selected_categories = [],
      year_range = (2000, 2030), ras_range = (6, 10)\<rparr>"]
  by (simp add: filter_pipeline_def rankings_columns_def
      CATEGORY_ORDER_def example_prospect_def position_step_def
      category_step_def year_step_def year_filter_active_def ras_step_def cell_ge_def
      cell_le_def isna_def Let_def unique_values_def)

lemma length_unique_values: "length (unique_values xs) = card (set xs)"
  by (simp add: unique_values_def length_remdups_card_conv)

lemma year_filter_active_iff:
  "year_filter_active cols rs \<longleftrightarrow>
     ''draft_season'' \<in> set cols \<and> 2 \<le> card (set (dropna (map draft_season rs)))"
  by (auto simp: year_filter_active_def length_unique_values)

text \<open>
  Claim C6. The RAS filter keeps every row whose RAS is missing, whatever the range. The
  year filter drops a row whose draft season is missing exactly when it is active, and
  it is active exactly when the table has the draft-season column and the rows at hand
  have at least two different draft years.
\<close>

theorem missing_ras_kept_missing_year_dropped:
  "(r \<in> set rs \<and> RAS r = None \<longrightarrow> r \<in> set (ras_step cols rr rs)) \<and>
   (r \<in> set rs \<and> draft_season r = None \<longrightarrow>
      (r \<in> set (year_step cols yr rs) \<longleftrightarrow> \<not> year_filter_active cols rs)) \<and>
   (year_filter_active cols rs \<longleftrightarrow>
      ''draft_season'' \<in> set cols \<and> 2 \<le> card (set (dropna (map draft_season rs))))"
proof (intro conjI impI)
  show "r \<in> set (ras_step cols rr rs)" if "r \<in> set rs \<and> RAS r = None"
    using that by (simp add: ras_step_def isna_def)
  show "(r \<in> set (year_step cols yr rs)) = (\<not> year_filter_active cols rs)"
    if "r \<in> set rs \<and> draft_season r = None"
    using that by (simp add: year_step_def cell_ge_def)
  show "year_filter_active cols rs \<longleftrightarrow>
      ''draft_season'' \<in> set cols \<and> 2 \<le> card (set (dropna (map draft_season rs)))"
    by (rule year_filter_active_iff)
qed

theorem missing_ras_kept_missing_year_dropped_witness:
  "(example_prospect ''A'' ''Elite'' None (Some 1))\<lparr>draft_season := None\<rparr>
     \<in> set [(example_prospect ''A'' ''Elite'' None (Some 1))\<lparr>draft_season := None\<rparr>,
             (example_prospect ''B'' ''Elite'' (Some 4) (Some 2))\<lparr>draft_season := Some 2023\<rparr>,
             example_prospect ''C'' ''Elite'' (Some 9) (Some 3)] \<and>
   (example_prospect ''A'' ''Elite'' None (Some 1))\<lparr>draft_season := None\<rparr>
     \<in> set (ras_step rankings_columns (8, 10)
            [(example_prospect ''A'' ''Elite'' None (Some 1))\<lparr>draft_season := None\<rparr>,
             (example_prospect ''B'' ''Elite'' (Some 4) (Some 2))\<lparr>draft_season := Some 2023\<rparr>,
             example_prospect ''C'' ''Elite'' (Some 9) (Some 3)]) \<and>
   year_filter_active rankings_columns
            [(example_prospect ''A'' ''Elite'' None (Some 1))\<lparr>draft_season := None\<rparr>,
             (example_prospect ''B'' ''Elite'' (Some 4) (Some 2))\<lparr>draft_season := Some 2023\<rparr>,
             example_prospect ''C'' ''Elite'' (Some 9) (Some 3)] \<and>
   (example_prospect ''A'' ''Elite'' None (Some 1))\<lparr>draft_season := None\<rparr>
     \<notin> set (year_step rankings_columns (2023, 2024)
            [(example_prospect ''A'' ''Elite'' None (Some 1))\<lparr>draft_season := None\<rparr>,
             (example_prospect ''B'' ''Elite'' (Some 4) (Some 2))\<lparr>draft_season := Some 2023\<rparr>,
             example_prospect ''C'' ''Elite'' (Some 9) (Some 3)])"
  using missing_ras_kept_missing_year_dropped [of "(example_prospect ''A'' ''Elite'' None (Some 1))\<lparr>draft_season := None\<rparr>"
     "[(example_prospect ''A'' ''Elite'' None (Some 1))\<lparr>draft_season := None\<rparr>,
             (example_prospect ''B'' ''Elite'' (Some 4) (Some 2))\<lparr>draft_season := Some 2023\<rparr>,
             example_prospect ''C'' ''Elite'' (Some 9) (Some 3)]" rankings_columns "(8, 10)" "(2023, 2024)"]
  by (simp add: example_prospect_def rankings_columns_def)

section \<open>Properties of the draft-pick format\<close>

lemma format_draft_pick_udfa: "draft_round row = None \<Longrightarrow> format_draft_pick cols row = Inr ''UDFA''"
  by (simp add: format_draft_pick_def)

lemma format_draft_pick_drafted:
  "format_draft_pick rankings_columns
     ((example_prospect ''A'' ''Elite'' None None)\<lparr>draft_round := Some 1, draft_overall_selection := Some 15\<rparr>) = Inr ''R1 #15''"
  by (simp add: format_draft_pick_def rankings_columns_def example_prospect_def str_int_def py_int_def)

text \<open>
  Claim C8 says \<open>format_draft_pick\<close> returns a string for every row. For a row with a
  draft round and no overall selection the program raises ValueError, from \<open>int\<close> of the
  missing value.
\<close>

theorem format_draft_pick_raises_on_missing_pick:
  "format_draft_pick rankings_columns
     ((example_prospect ''A'' ''Elite'' None None)\<lparr>draft_round := Some 3\<rparr>) = Inl ValueError"
  by (simp add: format_draft_pick_def rankings_columns_def example_prospect_def)

section \<open>Properties of the comparison highlighter\<close>

lemma length_numeric_cells:
  "length (numeric_cells pyfloat idx cells) = length (filter (parses_as_number pyfloat) cells)"
  by (induction cells arbitrary: idx) (auto simp: parses_as_number_def split: option.splits)

lemma numeric_cells_index:
  "(i, v) \<in> set (numeric_cells pyfloat idx cells) \<Longrightarrow>
     idx \<le> i \<and> i < idx + length cells \<and> numeric_value pyfloat (cells ! (i - idx)) = Some v"
proof (induction cells arbitrary: idx)
  case Nil
  then show ?case by simp
next
  case (Cons val cells)
  show ?case
  proof (cases "(i, v) \<in> set (numeric_cells pyfloat (Suc idx) cells)")
    case True
    from Cons.IH [OF this] show ?thesis
      by (auto simp: Suc_diff_le nth_Cons')
  next
    case False
    with Cons.prems have "i = idx" and "numeric_value pyfloat val = Some v"
      by (auto split: option.splits)
    then show ?thesis by simp
  qed
qed

lemma numeric_cells_update:
  "numeric_value pyfloat (cells ! j) = None \<Longrightarrow>
     numeric_cells pyfloat idx (cells[j := None]) = numeric_cells pyfloat idx cells"
proof (induction cells arbitrary: idx j)
  case Nil
  then show ?case by simp
next
  case (Cons val cells)
  then show ?case
    by (cases j) (auto simp: numeric_value_def split: option.splits)
qed

lemma fold_paint_length:
  "length (fold (\<lambda>(idx, val) styles.
       case cell_style hb vals best val of None \<Rightarrow> styles | Some s \<Rightarrow> styles[idx := s])
     found styles) = length styles"
  by (induction found arbitrary: styles) (auto split: option.splits)

lemma fold_paint_untouched:
  "i \<notin> fst ` set found \<Longrightarrow>
   fold (\<lambda>(idx, val) styles.
       case cell_style hb vals best val of None \<Rightarrow> styles | Some s \<Rightarrow> styles[idx := s])
     found styles ! i = styles ! i"
  by (induction found arbitrary: styles) (auto split: option.splits)

lemma highlight_cells_cases:
  assumes "row = metric # cells"
  shows "highlight_cells pyfloat cfg row = Inr (replicate (length row) '''') \<or>
     (\<exists>hb. 2 \<le> length (numeric_cells pyfloat 1 cells) \<and>
        highlight_cells pyfloat cfg row =
          Inr (fold (\<lambda>(idx, val) styles.
                 case cell_style hb (map snd (numeric_cells pyfloat 1 cells))
                        (if hb then py_max (map snd (numeric_cells pyfloat 1 cells))
                         else py_min (map snd (numeric_cells pyfloat 1 cells))) val of
                   None \<Rightarrow> styles | Some s \<Rightarrow> styles[idx := s])
               (numeric_cells pyfloat 1 cells) (replicate (length row) '''')))"
  using assms by (auto simp: highlight_cells_def Let_def split: option.splits)

lemma highlight_returns:
  "row \<noteq> [] \<Longrightarrow> \<exists>styles. highlight_cells pyfloat cfg row = Inr styles \<and> length styles = length row"
proof (cases row)
  case Nil
  then show "row \<noteq> [] \<Longrightarrow> ?thesis" by simp
next
  case (Cons metric cells)
  from highlight_cells_cases [OF this, of pyfloat cfg] show ?thesis
    by (auto simp: fold_paint_length)
qed

lemma highlighted_parses:
  assumes "highlight_cells pyfloat cfg row = Inr styles"
    and "i < length styles" and "styles ! i \<noteq> ''''"
  shows "2 \<le> length (filter (parses_as_number pyfloat) (tl row)) \<and> 0 < i \<and>
     parses_as_number pyfloat (row ! i)"
proof (cases row)
  case Nil
  with assms(1) show ?thesis by (simp add: highlight_cells_def)
next
  case (Cons metric cells)
  from highlight_cells_cases [OF this, of pyfloat cfg]
  consider "highlight_cells pyfloat cfg row = Inr (replicate (length row) '''')"
    | hb where "2 \<le> length (numeric_cells pyfloat 1 cells)"
        "highlight_cells pyfloat cfg row =
          Inr (fold (\<lambda>(idx, val) styles.
                 case cell_style hb (map snd (numeric_cells pyfloat 1 cells))
                        (if hb then py_max (map snd (numeric_cells pyfloat 1 cells))
                         else py_min (map snd (numeric_cells pyfloat 1 cells))) val of
                   None \<Rightarrow> styles | Some s \<Rightarrow> styles[idx := s])
               (numeric_cells pyfloat 1 cells) (replicate (length row) ''''))"
    by blast
  then show ?thesis
  proof cases
    case 1
    with assms show ?thesis by auto
  next
    case 2
    let ?found = "numeric_cells pyfloat 1 cells"
    from 2(2) assms(1) have styles: "styles = fold (\<lambda>(idx, val) styles.
                 case cell_style hb (map snd ?found)
                        (if hb then py_max (map snd ?found)
                         else py_min (map snd ?found)) val of
                   None \<Rightarrow> styles | Some s \<Rightarrow> styles[idx := s])
               ?found (replicate (length row) '''')"
      by simp
    have len: "length styles = length row"
      by (subst styles) (simp add: fold_paint_length)
    have "i \<in> fst ` set ?found"
    proof (rule ccontr)
      assume "i \<notin> fst ` set ?found"
      then have "styles ! i = replicate (length row) '''' ! i"
        by (subst styles) (rule fold_paint_untouched)
      with assms(2,3) len show False by simp
    qed
    then obtain v where "(i, v) \<in> set ?found" by auto
    from numeric_cells_index [OF this] have "0 < i" "numeric_value pyfloat (cells ! (i - 1)) = Some v"
      by auto
    then have "parses_as_number pyfloat (row ! i)"
      using Cons by (simp add: parses_as_number_def nth_Cons')
    with 2(1) \<open>0 < i\<close> Cons show ?thesis
      by (simp add: length_numeric_cells)
  qed
qed

lemma few_numbers_unstyled:
  assumes "row \<noteq> []" and "length (filter (parses_as_number pyfloat) (tl row)) < 2"
  shows "highlight_cells pyfloat cfg row = Inr (replicate (length row) '''')"
proof -
  from assms(1) obtain metric cells where row: "row = metric # cells" by (cases row) auto
  from highlight_cells_cases [OF this, of pyfloat cfg] assms(2) row show ?thesis
    by (auto simp: length_numeric_cells)
qed

lemma unparsed_excluded:
  assumes "0 < i" and "i < length row" and "\<not> parses_as_number pyfloat (row ! i)"
  shows "highlight_cells pyfloat cfg (row[i := None]) = highlight_cells pyfloat cfg row"
proof -
  from assms(2) obtain metric cells where row: "row = metric # cells" by (cases row) auto
  from assms(1) obtain j where i: "i = Suc j" by (cases i) auto
  from assms(3) row i have "numeric_value pyfloat (cells ! j) = None"
    by (simp add: parses_as_number_def)
  then have "numeric_cells pyfloat 1 (cells[j := None]) = numeric_cells pyfloat 1 cells"
    by (rule numeric_cells_update)
  with row i show ?thesis
    by (auto simp: highlight_cells_def Let_def simp del: One_nat_def split: option.splits)
qed

text \<open>
  Claim C10. For a row that is not empty \<open>highlight_cells\<close> returns one style for each
  cell and never raises. A cell gets a style only if at least two cells of the row parse
  as numbers, and it is one of them. With fewer than two such cells the whole row is
  unstyled. A cell that does not parse as a number has no part in the result: the row
  with that cell replaced by a missing value is styled the same.
\<close>

theorem highlight_needs_two_numbers:
  "(row \<noteq> [] \<longrightarrow>
      (\<exists>styles. highlight_cells pyfloat cfg row = Inr styles \<and> length styles = length row)) \<and>
   (\<forall>styles i. highlight_cells pyfloat cfg row = Inr styles \<and> i < length styles \<and>
        styles ! i \<noteq> '''' \<longrightarrow>
      2 \<le> length (filter (parses_as_number pyfloat) (tl row)) \<and> 0 < i \<and>
      parses_as_number pyfloat (row ! i)) \<and>
   (row \<noteq> [] \<and> length (filter (parses_as_number pyfloat) (tl row)) < 2 \<longrightarrow>
      highlight_cells pyfloat cfg row = Inr (replicate (length row) '''')) \<and>
   (\<forall>i. 0 < i \<and> i < length row \<and> \<not> parses_as_number pyfloat (row ! i) \<longrightarrow>
      highlight_cells pyfloat cfg (row[i := None]) = highlight_cells pyfloat cfg row)"
  using highlight_returns [of row pyfloat cfg] highlighted_parses [of pyfloat cfg row]
    few_numbers_unstyled [of row pyfloat cfg] unparsed_excluded [of _ row pyfloat cfg]
  by blast

theorem highlight_needs_two_numbers_witness:
  "[Some ''Athletic Rank'', Some ''#3'', Some ''N/A'', Some ''#12''] \<noteq> [] \<and>
   highlight_cells (\<lambda>s. if s = ''3'' then Some 3 else if s = ''12'' then Some 12 else None)
     [''Athletic Rank'' \<mapsto> False]
     [Some ''Athletic Rank'', Some ''#3'', Some ''N/A'', Some ''#12'']
     = Inr ['''', best_style, '''', ''''] \<and>
   2 \<le> length (filter (parses_as_number
          (\<lambda>s. if s = ''3'' then Some 3 else if s = ''12'' then Some 12 else None))
        (tl [Some ''Athletic Rank'', Some ''#3'', Some ''N/A'', Some ''#12''])) \<and>
   highlight_cells (\<lambda>s. if s = ''3'' then Some 3 else if s = ''12'' then Some 12 else None)
     [''Athletic Rank'' \<mapsto> False]
     ([Some ''Athletic Rank'', Some ''#3'', Some ''N/A'', Some ''#12''][2 := None])
     = Inr ['''', best_style, '''', '''']"
  using highlight_needs_two_numbers [of "[Some ''Athletic Rank'', Some ''#3'', Some ''N/A'', Some ''#12'']"
      "\<lambda>s. if s = ''3'' then Some 3 else if s = ''12'' then Some 12 else None"
      "[''Athletic Rank'' \<mapsto> False]"]
  by (simp add: highlight_cells_def parses_as_number_def numeric_value_def clean_val_def
      strip_def whitespace_def em_dash_def cell_style_def best_style_def near_best_style_def
      Let_def)

end
